theory Spec2Isabelle
  imports Complex_Main
begin

section \<open>Python values, errors and strings\<close>

text \<open>
  The program is Python. Its \<open>float\<close>s are modelled as exact reals, its unbounded
  \<open>int\<close>s as \<open>int\<close> or \<open>nat\<close> (lengths and counts), its \<open>str\<close> as \<open>string\<close>.
  Every exception the modelled code can raise is a value of \<open>py_error\<close>; a function
  that can raise returns \<open>py_error + 'a\<close> with \<open>Inl\<close> the exception.
\<close>

datatype py_error = ZeroDivisionError | TypeError | ValueError | IndexError | KeyError

text \<open>The values a \<open>Dict[str, Any]\<close> holds, as far as the code inspects them.\<close>

datatype py_value = PyNone | PyBool bool | PyInt int | PyFloat real | PyStr string

text \<open>Python truthiness, as used by \<open>1.0 if v else 0.0\<close>.\<close>

fun truthy :: "py_value \<Rightarrow> bool" where
  "truthy PyNone = False"
| "truthy (PyBool b) = b"
| "truthy (PyInt n) = (n \<noteq> 0)"
| "truthy (PyFloat x) = (x \<noteq> 0)"
| "truthy (PyStr s) = (s \<noteq> [])"

text \<open>\<open>a / b\<close> on numbers: true division, raising on a zero divisor.\<close>

definition py_div :: "real \<Rightarrow> real \<Rightarrow> py_error + real" where
  "py_div a b = (if b = 0 then Inl ZeroDivisionError else Inr (a / b))"

text \<open>\<open>v / c\<close> for a dictionary value \<open>v\<close>: numbers and booleans divide, the rest raise.\<close>

fun value_div :: "py_value \<Rightarrow> real \<Rightarrow> py_error + real" where
  "value_div (PyBool b) c = py_div (if b then 1 else 0) c"
| "value_div (PyInt n) c = py_div (real_of_int n) c"
| "value_div (PyFloat x) c = py_div x c"
| "value_div PyNone c = Inl TypeError"
| "value_div (PyStr s) c = Inl TypeError"

text \<open>\<open>d.get(key, default)\<close>.\<close>

definition dict_get :: "('k \<rightharpoonup> 'v) \<Rightarrow> 'k \<Rightarrow> 'v \<Rightarrow> 'v" where
  "dict_get d k dflt = (case d k of None \<Rightarrow> dflt | Some v \<Rightarrow> v)"

text \<open>\<open>s.startswith(p)\<close> and the substring test \<open>sub in s\<close>.\<close>

fun startswith :: "string \<Rightarrow> string \<Rightarrow> bool" where
  "startswith s [] = True"
| "startswith [] (p # ps) = False"
| "startswith (c # cs) (p # ps) = (c = p \<and> startswith cs ps)"

fun str_contains :: "string \<Rightarrow> string \<Rightarrow> bool" where
  "str_contains sub [] = (sub = [])"
| "str_contains sub (c # cs) = (startswith (c # cs) sub \<or> str_contains sub cs)"

text \<open>\<open>s.lower()\<close> on ASCII letters; other characters are left as they are.\<close>

definition lower_char :: "char \<Rightarrow> char" where
  "lower_char c =
     (case map_of (zip ''ABCDEFGHIJKLMNOPQRSTUVWXYZ'' ''abcdefghijklmnopqrstuvwxyz'') c of
        None \<Rightarrow> c
      | Some l \<Rightarrow> l)"

definition lower :: "string \<Rightarrow> string" where
  "lower s = map lower_char s"

section \<open>Page observations (ui\_state\_representation.py)\<close>

record ui_element =
  tag :: string
  elem_text :: string
  attributes :: "string \<rightharpoonup> string"
  position :: "string \<rightharpoonup> int"
  is_visible :: bool
  is_enabled :: bool
  is_interactable :: bool
  element_type :: string
  xpath :: string
  css_selector :: string

record page_state =
  url :: string
  title :: string
  elements :: "ui_element list"
  user_context :: "string \<rightharpoonup> py_value"
  page_type :: string
  timestamp :: real

definition element_types :: "string list" where
  "element_types =
     [''button'', ''input'', ''link'', ''select'', ''textarea'',
      ''checkbox'', ''radio'', ''image'', ''div'', ''span'', ''other'']"

definition attribute_types :: "string list" where
  "attribute_types = [''id'', ''class'', ''type'', ''value'', ''placeholder'', ''href'', ''src'']"

definition vector_size :: nat where
  "vector_size = length element_types * 10 + length attribute_types * 5 + 20 + 10"

text \<open>
  \<open>vector[idx:idx+len(xs)] = xs\<close> on a numpy array: the slice must lie inside the
  array, otherwise the shapes differ and numpy raises \<open>ValueError\<close>.
\<close>

definition set_slice :: "real list \<Rightarrow> nat \<Rightarrow> real list \<Rightarrow> py_error + real list" where
  "set_slice vector idx xs =
     (if idx + length xs \<le> length vector
      then Inr (take idx vector @ xs @ drop (idx + length xs) vector)
      else Inl ValueError)"

text \<open>
  The dictionary \<open>element_counts\<close>: every element type starts at 0, and each
  element whose type is a key adds one.
\<close>

definition initial_counts :: "string \<rightharpoonup> nat" where
  "initial_counts = map_of (map (\<lambda>t. (t, 0)) element_types)"

definition count_element :: "ui_element \<Rightarrow> (string \<rightharpoonup> nat) \<Rightarrow> (string \<rightharpoonup> nat)" where
  "count_element e counts =
     (case counts (element_type e) of
        None \<Rightarrow> counts
      | Some c \<Rightarrow> counts(element_type e \<mapsto> c + 1))"

definition element_counts :: "ui_element list \<Rightarrow> (string \<rightharpoonup> nat)" where
  "element_counts es = fold count_element es initial_counts"

text \<open>The loop over \<open>self.element_types\<close>, carrying \<open>(vector, idx)\<close>.\<close>

fun fill_element_types ::
  "string list \<Rightarrow> (string \<rightharpoonup> nat) \<Rightarrow> nat \<Rightarrow> real list \<times> nat \<Rightarrow> py_error + real list \<times> nat" where
  "fill_element_types [] counts n (vector, idx) = Inr (vector, idx)"
| "fill_element_types (t # ts) counts n (vector, idx) =
     (case counts t of
        None \<Rightarrow> Inl KeyError
      | Some c \<Rightarrow>
          (case py_div (real c) (real n) of
             Inl e \<Rightarrow> Inl e
           | Inr x \<Rightarrow>
               (case set_slice vector idx (replicate 10 x) of
                  Inl e \<Rightarrow> Inl e
                | Inr vector' \<Rightarrow> fill_element_types ts counts n (vector', idx + 10))))"

text \<open>\<open>sum(1 for elem in elements if attr_type in elem.attributes)\<close>.\<close>

definition attr_count :: "string \<Rightarrow> ui_element list \<Rightarrow> nat" where
  "attr_count a es = length (filter (\<lambda>e. attributes e a \<noteq> None) es)"

text \<open>The loop over \<open>self.attribute_types\<close>.\<close>

fun fill_attribute_types ::
  "string list \<Rightarrow> ui_element list \<Rightarrow> real list \<times> nat \<Rightarrow> py_error + real list \<times> nat" where
  "fill_attribute_types [] es (vector, idx) = Inr (vector, idx)"
| "fill_attribute_types (a # as) es (vector, idx) =
     (case py_div (real (attr_count a es)) (real (length es)) of
        Inl e \<Rightarrow> Inl e
      | Inr x \<Rightarrow>
          (case set_slice vector idx (replicate 5 x) of
             Inl e \<Rightarrow> Inl e
           | Inr vector' \<Rightarrow> fill_attribute_types as es (vector', idx + 5)))"

definition flag :: "bool \<Rightarrow> real" where
  "flag b = (if b then 1 else 0)"

text \<open>The list \<open>page_features\<close>; only its first entry can raise.\<close>

definition page_features :: "nat \<Rightarrow> page_state \<Rightarrow> py_error + real list" where
  "page_features max_elements ps =
     (case py_div (real (length (elements ps))) (real max_elements) of
        Inl e \<Rightarrow> Inl e
      | Inr r \<Rightarrow> Inr
          [r,
           flag (str_contains ''login'' (page_type ps)),
           flag (str_contains ''product'' (page_type ps)),
           flag (str_contains ''basket'' (page_type ps)),
           flag (str_contains ''admin'' (page_type ps)),
           real (length (url ps)) / 100,
           flag (truthy (dict_get (user_context ps) ''logged_in'' (PyBool False))),
           flag (truthy (dict_get (user_context ps) ''is_admin'' (PyBool False))),
           flag (truthy (dict_get (user_context ps) ''has_items_in_basket'' (PyBool False))),
           flag (truthy (dict_get (user_context ps) ''is_deluxe_user'' (PyBool False)))])"

text \<open>The list \<open>user_features\<close>, its entries evaluated left to right.\<close>

fun user_features_of :: "(string \<times> real) list \<Rightarrow> (string \<rightharpoonup> py_value) \<Rightarrow> py_error + real list" where
  "user_features_of [] ctx = Inr []"
| "user_features_of ((k, c) # kcs) ctx =
     (case value_div (dict_get ctx k (PyInt 0)) c of
        Inl e \<Rightarrow> Inl e
      | Inr x \<Rightarrow>
          (case user_features_of kcs ctx of
             Inl e \<Rightarrow> Inl e
           | Inr xs \<Rightarrow> Inr (x # xs)))"

definition user_features :: "page_state \<Rightarrow> py_error + real list" where
  "user_features ps =
     user_features_of
       [(''user_id'', 1000), (''session_duration'', 3600), (''page_views'', 100),
        (''failed_logins'', 10), (''successful_actions'', 50)]
       (user_context ps)"

text \<open>
  \<open>UIStateRepresentation.state_to_vector\<close>. \<open>max_elements\<close> is the constructor's
  argument (100 by default).
\<close>

definition state_to_vector :: "nat \<Rightarrow> page_state \<Rightarrow> py_error + real list" where
  "state_to_vector max_elements ps =
     (case fill_element_types element_types (element_counts (elements ps))
             (length (elements ps)) (replicate vector_size 0, 0) of
        Inl e \<Rightarrow> Inl e
      | Inr (v1, i1) \<Rightarrow>
          (case fill_attribute_types attribute_types (elements ps) (v1, i1) of
             Inl e \<Rightarrow> Inl e
           | Inr (v2, i2) \<Rightarrow>
               (case page_features max_elements ps of
                  Inl e \<Rightarrow> Inl e
                | Inr pf \<Rightarrow>
                    (case set_slice v2 i2 pf of
                       Inl e \<Rightarrow> Inl e
                     | Inr v3 \<Rightarrow>
                         (case user_features ps of
                            Inl e \<Rightarrow> Inl e
                          | Inr uf \<Rightarrow> set_slice v3 (i2 + 10) uf)))))"

definition default_max_elements :: nat where
  "default_max_elements = 100"

text \<open>A page on which no element was found, as \<open>_get_page_state\<close> builds it.\<close>

definition empty_page :: page_state where
  "empty_page =
     \<lparr>url = ''http://localhost:3000'', title = ''OWASP Juice Shop'', elements = [],
      user_context = Map.empty, page_type = ''general'', timestamp = 0\<rparr>"

section \<open>Coverage bookkeeping and rewards (reward\_system.py)\<close>

record coverage_metrics =
  pages_visited :: "string set"
  elements_discovered :: "string set"
  interactions_performed :: "string set"
  unique_paths :: "string set"
  page_coverage :: real
  element_coverage :: real
  interaction_coverage :: real

record quality_metrics =
  test_diversity :: real
  test_complexity :: real
  assertion_coverage :: real
  edge_case_coverage :: real
  bug_discovery_rate :: real

record reward_calculator =
  coverage_metrics :: coverage_metrics
  quality_metrics :: quality_metrics
  weights :: "string \<rightharpoonup> real"
  baseline_metrics :: "string \<rightharpoonup> nat"

text \<open>The dataclass defaults: empty sets are passed in, the ratios default to 0.0.\<close>

definition new_coverage_metrics :: coverage_metrics where
  "new_coverage_metrics =
     \<lparr>pages_visited = {}, elements_discovered = {}, interactions_performed = {},
      unique_paths = {}, page_coverage = 0, element_coverage = 0, interaction_coverage = 0\<rparr>"

definition new_quality_metrics :: quality_metrics where
  "new_quality_metrics =
     \<lparr>test_diversity = 0, test_complexity = 0, assertion_coverage = 0,
      edge_case_coverage = 0, bug_discovery_rate = 0\<rparr>"

definition initial_weights :: "string \<rightharpoonup> real" where
  "initial_weights =
     [''exploration'' \<mapsto> 3 / 10, ''coverage'' \<mapsto> 25 / 100, ''quality'' \<mapsto> 2 / 10,
      ''bug_discovery'' \<mapsto> 15 / 100, ''efficiency'' \<mapsto> 1 / 10]"

definition initial_baseline :: "string \<rightharpoonup> nat" where
  "initial_baseline =
     [''total_pages'' \<mapsto> 50, ''total_elements'' \<mapsto> 1000, ''total_interactions'' \<mapsto> 100]"

text \<open>\<open>RewardCalculator.__init__\<close>.\<close>

definition reward_calculator_init :: reward_calculator where
  "reward_calculator_init =
     \<lparr>coverage_metrics = new_coverage_metrics, quality_metrics = new_quality_metrics,
      weights = initial_weights, baseline_metrics = initial_baseline\<rparr>"

text \<open>
  The fingerprints are MD5 digests of short strings. The digest function is a
  parameter \<open>md5\<close> of the model: every theorem below holds for whatever function
  it is, collisions included.
\<close>

definition hash_page :: "(string \<Rightarrow> string) \<Rightarrow> page_state \<Rightarrow> string" where
  "hash_page md5 ps = md5 (url ps @ ''_'' @ title ps @ ''_'' @ page_type ps)"

definition hash_element :: "(string \<Rightarrow> string) \<Rightarrow> ui_element \<Rightarrow> string" where
  "hash_element md5 e = md5 (tag e @ ''_'' @ element_type e @ ''_'' @ xpath e)"

text \<open>
  The loop over \<open>page_state.elements\<close>: it carries the set of discovered
  fingerprints, the counter \<open>new_elements\<close> and the local variable \<open>element_hash\<close>
  (unbound, \<open>None\<close> here, until the first iteration).
\<close>

fun discover_elements ::
  "(string \<Rightarrow> string) \<Rightarrow> ui_element list \<Rightarrow> string set \<times> nat \<times> string option
     \<Rightarrow> string set \<times> nat \<times> string option" where
  "discover_elements md5 [] (discovered, new_elements, element_hash) =
     (discovered, new_elements, element_hash)"
| "discover_elements md5 (e # es) (discovered, new_elements, element_hash) =
     (if hash_element md5 e \<notin> discovered
      then discover_elements md5 es
             (insert (hash_element md5 e) discovered, new_elements + 1, Some (hash_element md5 e))
      else discover_elements md5 es (discovered, new_elements, Some (hash_element md5 e)))"

text \<open>
  \<open>hasattr(locals(), 'element_hash')\<close>: \<open>locals()\<close> returns a \<open>dict\<close>, whose keys
  are the local variables' names; \<open>hasattr\<close> asks for an attribute of that dict
  object, and a dict has no attribute \<open>element_hash\<close>. The test is false whatever
  the local variables are.
\<close>

definition hasattr_locals_element_hash :: "string option \<Rightarrow> bool" where
  "hasattr_locals_element_hash element_hash = False"

text \<open>
  The f-string \<open>{page_hash}_{action}_{element_hash if hasattr(...) else 'unknown'}\<close>.
  The conditional expression evaluates \<open>element_hash\<close> only when the test holds;
  an unbound \<open>element_hash\<close> would then raise, which the model writes as the text
  \<open>unknown\<close> too since that branch is never taken.
\<close>

definition interaction_key :: "string \<Rightarrow> string \<Rightarrow> string option \<Rightarrow> string" where
  "interaction_key page_hash action element_hash =
     page_hash @ ''_'' @ action @ ''_'' @
       (if hasattr_locals_element_hash element_hash
        then (case element_hash of Some h \<Rightarrow> h | None \<Rightarrow> ''unknown'')
        else ''unknown'')"

text \<open>
  \<open>RewardCalculator.calculate_exploration_reward\<close>: the reward and the calculator
  after the call. Nothing in it can raise.
\<close>

definition calculate_exploration_reward ::
  "(string \<Rightarrow> string) \<Rightarrow> reward_calculator \<Rightarrow> page_state \<Rightarrow> string \<Rightarrow> bool
     \<Rightarrow> real \<times> reward_calculator" where
  "calculate_exploration_reward md5 rc ps action success =
     (let cm = coverage_metrics rc;
          reward1 = (if success then 0 + 1 else 0 - 1 / 2);
          page_hash = hash_page md5 ps;
          new_page = (page_hash \<notin> pages_visited cm);
          pages' = (if new_page then insert page_hash (pages_visited cm) else pages_visited cm);
          reward2 = (if new_page then reward1 + 2 else reward1);
          (discovered', new_elements, element_hash) =
             discover_elements md5 (elements ps) (elements_discovered cm, 0, None);
          reward3 = (if new_elements > 0 then reward2 + real new_elements * (1 / 2) else reward2);
          meaningful = (action \<in> set [''click'', ''type'', ''select''] \<and> success);
          key = interaction_key page_hash action element_hash;
          new_interaction = (meaningful \<and> key \<notin> interactions_performed cm);
          interactions' = (if new_interaction then insert key (interactions_performed cm)
                           else interactions_performed cm);
          reward4 = (if new_interaction then reward3 + 1 else reward3);
          reward5 = (if action \<in> set [''wait'', ''scroll_up'', ''scroll_down'']
                     then reward4 - 1 / 10 else reward4)
      in (reward5,
          rc\<lparr>coverage_metrics := cm\<lparr>pages_visited := pages', elements_discovered := discovered',
                                interactions_performed := interactions'\<rparr>\<rparr>))"

text \<open>\<open>d[key]\<close> on a dictionary.\<close>

definition dict_lookup :: "('k \<rightharpoonup> 'v) \<Rightarrow> 'k \<Rightarrow> py_error + 'v" where
  "dict_lookup d k = (case d k of None \<Rightarrow> Inl KeyError | Some v \<Rightarrow> Inr v)"

text \<open>\<open>len(s) / self.baseline_metrics[key]\<close>.\<close>

definition coverage_ratio :: "string set \<Rightarrow> (string \<rightharpoonup> nat) \<Rightarrow> string \<Rightarrow> py_error + real" where
  "coverage_ratio s baseline key =
     (case dict_lookup baseline key of
        Inl e \<Rightarrow> Inl e
      | Inr n \<Rightarrow> py_div (real (card s)) (real n))"

text \<open>
  \<open>RewardCalculator.calculate_coverage_reward\<close>: the three ratios are recomputed
  and stored, then combined. An exception leaves the method before it returns.
\<close>

definition calculate_coverage_reward ::
  "reward_calculator \<Rightarrow> py_error + real \<times> reward_calculator" where
  "calculate_coverage_reward rc =
     (let cm = coverage_metrics rc in
      case coverage_ratio (pages_visited cm) (baseline_metrics rc) ''total_pages'' of
        Inl e \<Rightarrow> Inl e
      | Inr pc \<Rightarrow>
      (case coverage_ratio (elements_discovered cm) (baseline_metrics rc) ''total_elements'' of
        Inl e \<Rightarrow> Inl e
      | Inr ec \<Rightarrow>
      (case coverage_ratio (interactions_performed cm) (baseline_metrics rc) ''total_interactions'' of
        Inl e \<Rightarrow> Inl e
      | Inr ic \<Rightarrow>
          (let coverage_score = pc * (4 / 10) + ec * (4 / 10) + ic * (2 / 10);
               coverage_reward = coverage_score * 10;
               coverage_reward1 = (if pc \<ge> 8 / 10 then coverage_reward + 5 else coverage_reward);
               coverage_reward2 = (if ec \<ge> 7 / 10 then coverage_reward1 + 5 else coverage_reward1)
           in Inr (coverage_reward2,
                   rc\<lparr>coverage_metrics := cm\<lparr>page_coverage := pc, element_coverage := ec,
                                         interaction_coverage := ic\<rparr>\<rparr>)))))"

text \<open>\<open>RewardCalculator.calculate_total_reward\<close>; the operands are read left to right.\<close>

definition calculate_total_reward ::
  "reward_calculator \<Rightarrow> real \<Rightarrow> real \<Rightarrow> real \<Rightarrow> real \<Rightarrow> real \<Rightarrow> py_error + real" where
  "calculate_total_reward rc exploration_reward coverage_reward quality_reward bug_reward
       efficiency_reward =
     (case dict_lookup (weights rc) ''exploration'' of Inl e \<Rightarrow> Inl e | Inr w1 \<Rightarrow>
      (case dict_lookup (weights rc) ''coverage'' of Inl e \<Rightarrow> Inl e | Inr w2 \<Rightarrow>
      (case dict_lookup (weights rc) ''quality'' of Inl e \<Rightarrow> Inl e | Inr w3 \<Rightarrow>
      (case dict_lookup (weights rc) ''bug_discovery'' of Inl e \<Rightarrow> Inl e | Inr w4 \<Rightarrow>
      (case dict_lookup (weights rc) ''efficiency'' of Inl e \<Rightarrow> Inl e | Inr w5 \<Rightarrow>
         Inr (exploration_reward * w1 + coverage_reward * w2 + quality_reward * w3 +
              bug_reward * w4 + efficiency_reward * w5))))))"

text \<open>\<open>RewardCalculator.reset_metrics\<close>.\<close>

definition reset_metrics :: "reward_calculator \<Rightarrow> reward_calculator" where
  "reset_metrics rc =
     rc\<lparr>coverage_metrics := new_coverage_metrics, quality_metrics := new_quality_metrics\<rparr>"

text \<open>
  A run of the calculator is a sequence of method calls. The methods
  \<open>calculate_test_quality_reward\<close>, \<open>calculate_bug_discovery_reward\<close>,
  \<open>calculate_efficiency_reward\<close>, \<open>calculate_total_reward\<close> and
  \<open>get_metrics_summary\<close> assign no attribute of the calculator, and their private
  helpers do not either: whatever they return, the calculator after them is the one
  before. A call that raises ends the run.
\<close>

datatype calculator_call =
    ExplorationReward page_state string bool
  | CoverageReward
  | TestQualityReward
  | BugDiscoveryReward
  | EfficiencyReward
  | TotalReward real real real real real
  | MetricsSummary
  | ResetMetrics

fun run_call ::
  "(string \<Rightarrow> string) \<Rightarrow> reward_calculator \<Rightarrow> calculator_call \<Rightarrow> py_error + reward_calculator" where
  "run_call md5 rc (ExplorationReward ps action success) =
     Inr (snd (calculate_exploration_reward md5 rc ps action success))"
| "run_call md5 rc CoverageReward =
     (case calculate_coverage_reward rc of Inl e \<Rightarrow> Inl e | Inr (r, rc') \<Rightarrow> Inr rc')"
| "run_call md5 rc TestQualityReward = Inr rc"
| "run_call md5 rc BugDiscoveryReward = Inr rc"
| "run_call md5 rc EfficiencyReward = Inr rc"
| "run_call md5 rc (TotalReward e c q b f) =
     (case calculate_total_reward rc e c q b f of Inl err \<Rightarrow> Inl err | Inr r \<Rightarrow> Inr rc)"
| "run_call md5 rc MetricsSummary = Inr rc"
| "run_call md5 rc ResetMetrics = Inr (reset_metrics rc)"

fun run_calls ::
  "(string \<Rightarrow> string) \<Rightarrow> reward_calculator \<Rightarrow> calculator_call list \<Rightarrow> py_error + reward_calculator" where
  "run_calls md5 rc [] = Inr rc"
| "run_calls md5 rc (c # cs) =
     (case run_call md5 rc c of Inl e \<Rightarrow> Inl e | Inr rc' \<Rightarrow> run_calls md5 rc' cs)"

section \<open>The exploration agent (marl\_agents.py)\<close>

record action =
  action_type :: string
  target_element :: "ui_element option"
  action_value :: "string option"
  parameters :: "(string \<rightharpoonup> py_value) option"

text \<open>The dataclass constructor \<open>Action(action_type, target_element, value)\<close>.\<close>

definition Action :: "string \<Rightarrow> ui_element option \<Rightarrow> string option \<Rightarrow> action" where
  "Action t e v = \<lparr>action_type = t, target_element = e, action_value = v, parameters = None\<rparr>"

text \<open>An experience is the tuple \<open>(state, action, reward, next_state, done)\<close>.\<close>

type_synonym experience = "real list \<times> action \<times> real \<times> real list \<times> bool"

definition exp_done :: "experience \<Rightarrow> bool" where
  "exp_done e = (case e of (state, act, reward, next_state, done) \<Rightarrow> done)"

text \<open>
  The agent. Its two networks and its optimizer are torch objects: their
  parameters are values of the abstract types \<open>'net\<close> and \<open>'opt\<close>.
\<close>

record ('net, 'opt) exploration_agent =
  state_size :: nat
  action_size :: nat
  learning_rate :: real
  epsilon :: real
  epsilon_min :: real
  epsilon_decay :: real
  memory :: "experience list"
  memory_maxlen :: nat
  batch_size :: nat
  q_network :: 'net
  target_network :: 'net
  optimizer :: 'opt
  action_types :: "string list"
  visited_pages :: "string set"
  discovered_elements :: "string set"
  interaction_history :: "action list"

text \<open>
  \<open>ExplorationAgent.__init__\<close>; \<open>q0\<close> and \<open>t0\<close> are the two networks
  \<open>_build_network\<close> returns and \<open>opt0\<close> the optimizer torch builds.
\<close>

definition exploration_agent_init ::
  "'net \<Rightarrow> 'net \<Rightarrow> 'opt \<Rightarrow> nat \<Rightarrow> nat \<Rightarrow> real \<Rightarrow> ('net, 'opt) exploration_agent" where
  "exploration_agent_init q0 t0 opt0 n_state n_action lr =
     \<lparr>state_size = n_state, action_size = n_action, learning_rate = lr,
      epsilon = 1, epsilon_min = 1 / 100, epsilon_decay = 995 / 1000,
      memory = [], memory_maxlen = 10000, batch_size = 32,
      q_network = q0, target_network = t0, optimizer = opt0,
      action_types = [''click'', ''type'', ''scroll_up'', ''scroll_down'', ''wait'',
                      ''navigate_back'', ''navigate_forward'', ''refresh'', ''hover''],
      visited_pages = {}, discovered_elements = {}, interaction_history = []\<rparr>"

text \<open>
  \<open>xs.index(x)\<close>, \<open>xs[i]\<close> for a non-negative \<open>i\<close>, and \<open>random.choice(xs)\<close>
  where \<open>k\<close> is the random number the generator draws.
\<close>

fun list_index :: "'a list \<Rightarrow> 'a \<Rightarrow> py_error + nat" where
  "list_index [] x = Inl ValueError"
| "list_index (y # ys) x =
     (if y = x then Inr 0
      else (case list_index ys x of Inl e \<Rightarrow> Inl e | Inr i \<Rightarrow> Inr (Suc i)))"

definition list_get :: "'a list \<Rightarrow> nat \<Rightarrow> py_error + 'a" where
  "list_get xs i = (if i < length xs then Inr (xs ! i) else Inl IndexError)"

definition random_choice :: "nat \<Rightarrow> 'a list \<Rightarrow> py_error + 'a" where
  "random_choice k xs = (if xs = [] then Inl IndexError else Inr (xs ! (k mod length xs)))"

text \<open>
  \<open>np.argmax\<close> on a list: the index of the first occurrence of the maximum,
  \<open>ValueError\<close> on an empty list.
\<close>

fun argmax_scan :: "real list \<Rightarrow> nat \<Rightarrow> nat \<Rightarrow> real \<Rightarrow> nat" where
  "argmax_scan [] i best_i best = best_i"
| "argmax_scan (x # xs) i best_i best =
     (if x > best then argmax_scan xs (Suc i) i x else argmax_scan xs (Suc i) best_i best)"

definition np_argmax :: "real list \<Rightarrow> py_error + nat" where
  "np_argmax xs = (case xs of [] \<Rightarrow> Inl ValueError | x # rest \<Rightarrow> Inr (argmax_scan rest 1 0 x))"

text \<open>
  What one call of \<open>get_action\<close> takes from the random generators: the uniform
  draw of \<open>np.random.random()\<close>, in \<open>[0, 1)\<close>; the number behind
  \<open>random.choice\<close>; and the masks of the network's two \<open>Dropout\<close> layers, which
  are active since the network is never put in evaluation mode.
\<close>

record 'mask randomness =
  draw :: real
  choice :: nat
  dropout :: 'mask

text \<open>
  The body of the loop that fills \<open>action_scores\<close>: the Q-value
  \<open>q_values[0][self.action_types.index(action.action_type)]\<close> of one action.
\<close>

definition scored_value :: "string list \<Rightarrow> real list \<Rightarrow> action \<Rightarrow> py_error + real" where
  "scored_value types q_values a =
     (case list_index types (action_type a) of
        Inl e \<Rightarrow> Inl e
      | Inr action_idx \<Rightarrow> list_get q_values action_idx)"

text \<open>The loop itself, one Q-value per available action, in order.\<close>

fun action_scores :: "string list \<Rightarrow> real list \<Rightarrow> action list \<Rightarrow> py_error + real list" where
  "action_scores types q_values [] = Inr []"
| "action_scores types q_values (a # as) =
     (case scored_value types q_values a of
        Inl e \<Rightarrow> Inl e
      | Inr v \<Rightarrow>
          (case action_scores types q_values as of
             Inl e \<Rightarrow> Inl e
           | Inr vs \<Rightarrow> Inr (v # vs)))"

text \<open>
  \<open>ExplorationAgent.get_action\<close>. \<open>forward net mask state\<close> is the row of
  Q-values \<open>self.q_network(state_tensor)[0]\<close>.
\<close>

definition get_action ::
  "('net \<Rightarrow> 'mask \<Rightarrow> real list \<Rightarrow> real list) \<Rightarrow> 'mask randomness
     \<Rightarrow> ('net, 'opt) exploration_agent \<Rightarrow> real list \<Rightarrow> action list \<Rightarrow> py_error + action" where
  "get_action forward rnd agent state available_actions =
     (if draw rnd \<le> epsilon agent then random_choice (choice rnd) available_actions
      else
        (let q_values = forward (q_network agent) (dropout rnd) state in
         case action_scores (action_types agent) q_values available_actions of
           Inl e \<Rightarrow> Inl e
         | Inr scores \<Rightarrow>
             (case np_argmax scores of
                Inl e \<Rightarrow> Inl e
              | Inr best_action_idx \<Rightarrow> list_get available_actions best_action_idx)))"

text \<open>\<open>deque.append\<close> on a deque with \<open>maxlen\<close>: a full deque drops its oldest entry.\<close>

definition deque_append :: "nat \<Rightarrow> 'a list \<Rightarrow> 'a \<Rightarrow> 'a list" where
  "deque_append maxlen xs x =
     (if maxlen = 0 then []
      else if length xs \<ge> maxlen then drop (Suc (length xs - maxlen)) xs @ [x]
      else xs @ [x])"

definition remember ::
  "('net, 'opt) exploration_agent \<Rightarrow> real list \<Rightarrow> action \<Rightarrow> real \<Rightarrow> real list \<Rightarrow> bool
     \<Rightarrow> ('net, 'opt) exploration_agent" where
  "remember agent state act reward next_state done =
     agent\<lparr>memory := deque_append (memory_maxlen agent) (memory agent)
                         (state, act, reward, next_state, done)\<rparr>"

text \<open>The list comprehension \<open>[self.action_types.index(a.action_type) for a in actions]\<close>.\<close>

fun action_indices :: "string list \<Rightarrow> action list \<Rightarrow> py_error + nat list" where
  "action_indices types [] = Inr []"
| "action_indices types (a # as) =
     (case list_index types (action_type a) of
        Inl e \<Rightarrow> Inl e
      | Inr i \<Rightarrow> (case action_indices types as of Inl e \<Rightarrow> Inl e | Inr is \<Rightarrow> Inr (i # is)))"

text \<open>
  \<open>ExplorationAgent.replay\<close>. \<open>sample\<close> is \<open>random.sample\<close>; \<open>learn\<close> is the
  gradient step of torch (loss, \<open>backward\<close>, \<open>optimizer.step\<close>), which returns the
  online network and the optimizer after the step.
\<close>

definition replay ::
  "(experience list \<Rightarrow> nat \<Rightarrow> experience list)
     \<Rightarrow> ('net \<Rightarrow> 'net \<Rightarrow> 'opt \<Rightarrow> experience list \<Rightarrow> nat list \<Rightarrow> 'net \<times> 'opt)
     \<Rightarrow> ('net, 'opt) exploration_agent \<Rightarrow> py_error + ('net, 'opt) exploration_agent" where
  "replay sample learn agent =
     (if length (memory agent) < batch_size agent then Inr agent
      else
        (let batch = sample (memory agent) (batch_size agent) in
         case action_indices (action_types agent) (map (\<lambda>e. fst (snd e)) batch) of
           Inl e \<Rightarrow> Inl e
         | Inr idxs \<Rightarrow>
             (let (q', opt') = learn (q_network agent) (target_network agent) (optimizer agent)
                                 batch idxs;
                  eps' = (if epsilon agent > epsilon_min agent
                          then epsilon agent * epsilon_decay agent else epsilon agent)
              in Inr (agent\<lparr>q_network := q', optimizer := opt', epsilon := eps'\<rparr>))))"

definition update_target_network ::
  "('net, 'opt) exploration_agent \<Rightarrow> ('net, 'opt) exploration_agent" where
  "update_target_network agent = agent\<lparr>target_network := q_network agent\<rparr>"

text \<open>The loop of \<open>get_available_actions\<close> over the page's elements.\<close>

fun element_actions :: "ui_element list \<Rightarrow> action list \<Rightarrow> action list" where
  "element_actions [] actions = actions"
| "element_actions (e # es) actions =
     (if is_interactable e then
        (if element_type e = ''button'' then
           element_actions es (actions @ [Action ''click'' (Some e) None])
         else if element_type e = ''input'' then
           element_actions es (actions @ [Action ''type'' (Some e) (Some ''test_input'')])
         else if element_type e = ''link'' then
           element_actions es (actions @ [Action ''click'' (Some e) None])
         else element_actions es actions)
      else element_actions es actions)"

definition get_available_actions :: "page_state \<Rightarrow> action list" where
  "get_available_actions ps =
     element_actions (elements ps) [] @
       [Action ''scroll_up'' None None, Action ''scroll_down'' None None,
        Action ''wait'' None None, Action ''navigate_back'' None None,
        Action ''refresh'' None None]"

section \<open>The test-generation agent (marl\_agents.py)\<close>

record test_scenario =
  name :: string
  pattern :: string
  steps :: "(string \<rightharpoonup> py_value) list"
  assertions :: "(string \<rightharpoonup> py_value) list"
  test_data :: "string \<rightharpoonup> py_value"
  expected_outcome :: string
  priority :: string

definition test_patterns :: "string list" where
  "test_patterns =
     [''login_flow'', ''registration_flow'', ''product_search'', ''add_to_basket'',
      ''checkout_flow'', ''user_profile'', ''admin_functions'', ''error_handling'',
      ''security_tests'', ''accessibility_tests'']"

text \<open>\<open>str(n)\<close> for a length.\<close>

fun str_of_nat :: "nat \<Rightarrow> string" where
  "str_of_nat n =
     (if n < 10 then [''0123456789'' ! n]
      else str_of_nat (n div 10) @ [''0123456789'' ! (n mod 10)])"

text \<open>
  \<open>TestGenerationAgent._create_test_scenario\<close>. \<open>n_generated\<close> is
  \<open>len(self.generated_tests)\<close>; Python's \<open>%\<close> with a positive modulus is never
  negative, so the index is in range.
\<close>

definition create_test_scenario :: "nat \<Rightarrow> int \<Rightarrow> 'data \<Rightarrow> test_scenario" where
  "create_test_scenario n_generated act exploration_data =
     (let pat = test_patterns ! nat (act mod int (length test_patterns));
          test_scenario =
            \<lparr>name = ''marl_generated_'' @ pat @ ''_'' @ str_of_nat n_generated,
             pattern = pat, steps = [], assertions = [], test_data = Map.empty,
             expected_outcome = [], priority = ''medium''\<rparr>
      in if pat = ''login_flow'' then
           test_scenario\<lparr>
             steps :=
               [[''action'' \<mapsto> PyStr ''navigate'', ''target'' \<mapsto> PyStr ''/login''],
                [''action'' \<mapsto> PyStr ''type'', ''target'' \<mapsto> PyStr ''email'',
                 ''value'' \<mapsto> PyStr ''test@example.com''],
                [''action'' \<mapsto> PyStr ''type'', ''target'' \<mapsto> PyStr ''password'',
                 ''value'' \<mapsto> PyStr ''password123''],
                [''action'' \<mapsto> PyStr ''click'', ''target'' \<mapsto> PyStr ''login_button'']],
             assertions :=
               [[''type'' \<mapsto> PyStr ''url_contains'', ''value'' \<mapsto> PyStr ''/search''],
                [''type'' \<mapsto> PyStr ''element_visible'', ''target'' \<mapsto> PyStr ''user_menu'']]\<rparr>
         else if pat = ''product_search'' then
           test_scenario\<lparr>
             steps :=
               [[''action'' \<mapsto> PyStr ''navigate'', ''target'' \<mapsto> PyStr ''/search''],
                [''action'' \<mapsto> PyStr ''type'', ''target'' \<mapsto> PyStr ''search_input'',
                 ''value'' \<mapsto> PyStr ''apple''],
                [''action'' \<mapsto> PyStr ''click'', ''target'' \<mapsto> PyStr ''search_button''],
                [''action'' \<mapsto> PyStr ''wait'', ''duration'' \<mapsto> PyInt 2]],
             assertions :=
               [[''type'' \<mapsto> PyStr ''element_count'', ''target'' \<mapsto> PyStr ''.product-card'',
                 ''min'' \<mapsto> PyInt 1],
                [''type'' \<mapsto> PyStr ''text_contains'', ''target'' \<mapsto> PyStr ''.search-results'',
                 ''value'' \<mapsto> PyStr ''apple'']]\<rparr>
         else if pat = ''add_to_basket'' then
           test_scenario\<lparr>
             steps :=
               [[''action'' \<mapsto> PyStr ''navigate'', ''target'' \<mapsto> PyStr ''/search''],
                [''action'' \<mapsto> PyStr ''click'', ''target'' \<mapsto> PyStr ''.product-card:first-child''],
                [''action'' \<mapsto> PyStr ''click'', ''target'' \<mapsto> PyStr ''.add-to-basket-button''],
                [''action'' \<mapsto> PyStr ''click'', ''target'' \<mapsto> PyStr ''.basket-button'']],
             assertions :=
               [[''type'' \<mapsto> PyStr ''element_visible'', ''target'' \<mapsto> PyStr ''.basket-item''],
                [''type'' \<mapsto> PyStr ''text_contains'', ''target'' \<mapsto> PyStr ''.basket-count'',
                 ''value'' \<mapsto> PyStr ''1'']]\<rparr>
         else test_scenario)"

declare str_of_nat.simps [simp del]

section \<open>The episode orchestrator (marl\_agents.py, MARLSystem)\<close>

text \<open>
  The browser is the environment. Its state is a value of the abstract type \<open>'d\<close>,
  and a \<open>driver\<close> gives what the code asks of it: the three reads of
  \<open>_get_page_state\<close> (\<open>find_elements\<close> is every displayed element the selectors of
  \<open>extract_elements\<close> match, in order) and the commands, each returning the browser
  after it and, where the code catches an exception around it, whether it
  went through.
\<close>

record 'd driver =
  current_url :: "'d \<Rightarrow> string"
  driver_title :: "'d \<Rightarrow> string"
  find_elements :: "'d \<Rightarrow> ui_element list"
  driver_get :: "'d \<Rightarrow> string \<Rightarrow> 'd"
  click_element :: "'d \<Rightarrow> string \<Rightarrow> bool \<times> 'd"
  type_into :: "'d \<Rightarrow> string \<Rightarrow> string option \<Rightarrow> bool \<times> 'd"
  scroll_by :: "'d \<Rightarrow> int \<Rightarrow> bool \<times> 'd"
  go_back :: "'d \<Rightarrow> bool \<times> 'd"
  do_refresh :: "'d \<Rightarrow> bool \<times> 'd"
  sleep :: "'d \<Rightarrow> real \<Rightarrow> 'd"

text \<open>\<open>UIStateRepresentation.extract_elements\<close>: the result is cut at \<open>max_elements\<close>.\<close>

definition extract_elements :: "nat \<Rightarrow> 'd driver \<Rightarrow> 'd \<Rightarrow> ui_element list" where
  "extract_elements max_elements drv d = take max_elements (find_elements drv d)"

text \<open>\<open>UIStateRepresentation.get_page_type\<close>.\<close>

definition get_page_type :: "string \<Rightarrow> string \<Rightarrow> ui_element list \<Rightarrow> string" where
  "get_page_type u t es =
     (let url_lower = lower u; title_lower = lower t in
      if str_contains ''login'' url_lower \<or> str_contains ''login'' title_lower then ''login''
      else if str_contains ''register'' url_lower \<or> str_contains ''register'' title_lower
        then ''register''
      else if str_contains ''basket'' url_lower \<or> str_contains ''cart'' url_lower then ''basket''
      else if str_contains ''product'' url_lower \<or>
              list_ex (\<lambda>e. str_contains ''product'' (lower (elem_text e))) es then ''product''
      else if str_contains ''admin'' url_lower \<or> str_contains ''administration'' title_lower
        then ''admin''
      else if str_contains ''profile'' url_lower \<or> str_contains ''account'' url_lower
        then ''profile''
      else if str_contains ''search'' url_lower then ''search''
      else ''general'')"

text \<open>\<open>MARLSystem._get_page_state\<close> and \<open>MARLSystem._get_current_state\<close>.\<close>

definition get_page_state :: "'d driver \<Rightarrow> 'd \<Rightarrow> page_state" where
  "get_page_state drv d =
     (let es = extract_elements default_max_elements drv d in
      \<lparr>url = current_url drv d, title = driver_title drv d, elements = es,
       user_context = Map.empty,
       page_type = get_page_type (current_url drv d) (driver_title drv d) es,
       timestamp = 0\<rparr>)"

definition get_current_state :: "'d driver \<Rightarrow> 'd \<Rightarrow> py_error + real list" where
  "get_current_state drv d = state_to_vector default_max_elements (get_page_state drv d)"

text \<open>
  \<open>MARLSystem._execute_action\<close>: the reward and the browser after the action. An
  exception inside the \<open>try\<close> gives the reward -0.5.
\<close>

definition execute_action :: "'d driver \<Rightarrow> 'd \<Rightarrow> action \<Rightarrow> real \<times> 'd" where
  "execute_action drv d a =
     (let targeted = (target_element a \<noteq> None);
          xp = (case target_element a of Some e \<Rightarrow> xpath e | None \<Rightarrow> [])
      in if action_type a = ''click'' \<and> targeted then
           (let (ok, d') = click_element drv d xp in (if ok then 1 else - (1 / 2), d'))
         else if action_type a = ''type'' \<and> targeted then
           (let (ok, d') = type_into drv d xp (action_value a) in
            (if ok then 1 / 2 else - (1 / 2), d'))
         else if action_type a = ''scroll_up'' then
           (let (ok, d') = scroll_by drv d (- 300) in (if ok then 1 / 10 else - (1 / 2), d'))
         else if action_type a = ''scroll_down'' then
           (let (ok, d') = scroll_by drv d 300 in (if ok then 1 / 10 else - (1 / 2), d'))
         else if action_type a = ''wait'' then (0, sleep drv d 1)
         else (- (1 / 10), d))"

text \<open>\<open>MARLSystem._is_episode_done\<close>.\<close>

definition is_episode_done :: "'d driver \<Rightarrow> 'd \<Rightarrow> nat \<Rightarrow> bool" where
  "is_episode_done drv d step = (step \<ge> 50 \<or> str_contains ''error'' (lower (current_url drv d)))"

text \<open>
  The exploration phase of \<open>MARLSystem.train_episode\<close>: the loop
  \<open>for step in range(50)\<close> over the steps still to run, carrying the browser, the
  agent, \<open>current_state\<close> and \<open>episode_reward\<close>. It ends when the range is
  exhausted, at \<open>break\<close> on an empty action list, or at \<open>break\<close> on \<open>done\<close>;
  \<open>rnd step\<close> is what the random generators give at that step.
\<close>

datatype exit_reason = RangeExhausted | NoActions | Done

fun exploration_phase ::
  "('net \<Rightarrow> 'mask \<Rightarrow> real list \<Rightarrow> real list) \<Rightarrow> 'd driver \<Rightarrow> (nat \<Rightarrow> 'mask randomness)
     \<Rightarrow> nat list \<Rightarrow> 'd \<times> ('net, 'opt) exploration_agent \<times> real list \<times> real
     \<Rightarrow> py_error + exit_reason \<times> 'd \<times> ('net, 'opt) exploration_agent \<times> real list \<times> real" where
  "exploration_phase forward drv rnd [] (d, agent, current_state, episode_reward) =
     Inr (RangeExhausted, d, agent, current_state, episode_reward)"
| "exploration_phase forward drv rnd (step # rest) (d, agent, current_state, episode_reward) =
     (let available_actions = get_available_actions (get_page_state drv d) in
      if available_actions = [] then Inr (NoActions, d, agent, current_state, episode_reward)
      else
        (case get_action forward (rnd step) agent current_state available_actions of
           Inl e \<Rightarrow> Inl e
         | Inr act \<Rightarrow>
             (case execute_action drv d act of
                (reward, d') \<Rightarrow>
                  (case get_current_state drv d' of
                     Inl e \<Rightarrow> Inl e
                   | Inr next_state \<Rightarrow>
                       (let done = is_episode_done drv d' step;
                            agent' = remember agent current_state act reward next_state done
                        in if done
                           then Inr (Done, d', agent', next_state, episode_reward + reward)
                           else exploration_phase forward drv rnd rest
                                  (d', agent', next_state, episode_reward + reward))))))"

text \<open>
  \<open>MARLSystem.train_episode\<close> up to the end of its exploration phase: the start page
  is loaded and encoded, then the loop runs over \<open>range(50)\<close>. (The test
  generation and the learning update that follow touch neither the loop nor the
  experiences it recorded.)
\<close>

definition train_episode_exploration ::
  "('net \<Rightarrow> 'mask \<Rightarrow> real list \<Rightarrow> real list) \<Rightarrow> 'd driver \<Rightarrow> (nat \<Rightarrow> 'mask randomness)
     \<Rightarrow> ('net, 'opt) exploration_agent \<Rightarrow> 'd
     \<Rightarrow> py_error + exit_reason \<times> 'd \<times> ('net, 'opt) exploration_agent \<times> real list \<times> real" where
  "train_episode_exploration forward drv rnd agent d0 =
     (let d1 = driver_get drv d0 ''http://localhost:3000'' in
      case get_current_state drv d1 of
        Inl e \<Rightarrow> Inl e
      | Inr current_state \<Rightarrow>
          exploration_phase forward drv rnd [0..<50] (d1, agent, current_state, 0))"

section \<open>The trainer's episode loop (train\_marl.py, MARLTrainer)\<close>

text \<open>\<open>MARLTrainer._execute_action_safely\<close>: whether the action went through, and
  the browser after it.\<close>

definition execute_action_safely :: "'d driver \<Rightarrow> 'd \<Rightarrow> action \<Rightarrow> bool \<times> 'd" where
  "execute_action_safely drv d a =
     (let targeted = (target_element a \<noteq> None);
          xp = (case target_element a of Some e \<Rightarrow> xpath e | None \<Rightarrow> [])
      in if action_type a = ''click'' \<and> targeted then click_element drv d xp
         else if action_type a = ''type'' \<and> targeted then
           type_into drv d xp (Some (case action_value a of None \<Rightarrow> [] | Some v \<Rightarrow> v))
         else if action_type a = ''scroll_up'' then scroll_by drv d (- 300)
         else if action_type a = ''scroll_down'' then scroll_by drv d 300
         else if action_type a = ''wait'' then (True, sleep drv d (1 / 2))
         else if action_type a = ''navigate_back'' then go_back drv d
         else if action_type a = ''refresh'' then do_refresh drv d
         else (False, d))"

text \<open>
  The loop of \<open>MARLTrainer._train_episode\<close>, carrying the browser, the agent, the
  reward calculator, \<open>current_state\<close> and the three entries of \<open>episode_data\<close> it
  updates (\<open>total_actions\<close>, \<open>successful_actions\<close>, \<open>exploration_reward\<close>). Its
  only \<open>break\<close> is the one on an empty action list.
\<close>

fun trainer_loop ::
  "(string \<Rightarrow> string) \<Rightarrow> ('net \<Rightarrow> 'mask \<Rightarrow> real list \<Rightarrow> real list) \<Rightarrow> 'd driver
     \<Rightarrow> (nat \<Rightarrow> 'mask randomness) \<Rightarrow> nat list
     \<Rightarrow> 'd \<times> ('net, 'opt) exploration_agent \<times> reward_calculator \<times> real list \<times> nat \<times> nat \<times> real
     \<Rightarrow> py_error + exit_reason \<times> 'd \<times> ('net, 'opt) exploration_agent \<times> reward_calculator
           \<times> real list \<times> nat \<times> nat \<times> real" where
  "trainer_loop md5 forward drv rnd []
       (d, agent, rc, current_state, total_actions, successful_actions, exploration_total) =
     Inr (RangeExhausted, d, agent, rc, current_state, total_actions, successful_actions,
          exploration_total)"
| "trainer_loop md5 forward drv rnd (step # rest)
       (d, agent, rc, current_state, total_actions, successful_actions, exploration_total) =
     (let page_state = get_page_state drv d;
          available_actions = get_available_actions page_state
      in if available_actions = [] then
           Inr (NoActions, d, agent, rc, current_state, total_actions, successful_actions,
                exploration_total)
         else
           (case get_action forward (rnd step) agent current_state available_actions of
              Inl e \<Rightarrow> Inl e
            | Inr act \<Rightarrow>
                (case execute_action_safely drv d act of
                   (success, d') \<Rightarrow>
                     (case calculate_exploration_reward md5 rc page_state (action_type act) success of
                        (exploration_reward, rc') \<Rightarrow>
                          (case get_current_state drv d' of
                             Inl e \<Rightarrow> Inl e
                           | Inr next_state \<Rightarrow>
                               trainer_loop md5 forward drv rnd rest
                                 (sleep drv d' (2 / 10),
                                  remember agent current_state act exploration_reward next_state False,
                                  rc', next_state, total_actions + 1,
                                  (if success then successful_actions + 1 else successful_actions),
                                  exploration_total + exploration_reward))))))"

section \<open>Concrete observations used by the closed theorems\<close>

definition login_button :: ui_element where
  "login_button =
     \<lparr>tag = ''button'', elem_text = ''Log in'', attributes = [''id'' \<mapsto> ''loginButton''],
      position = [''x'' \<mapsto> 10, ''y'' \<mapsto> 20, ''width'' \<mapsto> 80, ''height'' \<mapsto> 30],
      is_visible = True, is_enabled = True, is_interactable = True,
      element_type = ''button'', xpath = ''id(loginButton)'', css_selector = ''#loginButton''\<rparr>"

definition email_input :: ui_element where
  "email_input =
     \<lparr>tag = ''input'', elem_text = [], attributes = [''id'' \<mapsto> ''email'', ''type'' \<mapsto> ''text''],
      position = [''x'' \<mapsto> 10, ''y'' \<mapsto> 60, ''width'' \<mapsto> 200, ''height'' \<mapsto> 30],
      is_visible = True, is_enabled = True, is_interactable = True,
      element_type = ''input'', xpath = ''id(email)'', css_selector = ''#email''\<rparr>"

definition login_page :: page_state where
  "login_page =
     \<lparr>url = ''http://localhost:3000/#/login'', title = ''OWASP Juice Shop'',
      elements = [login_button, email_input], user_context = Map.empty,
      page_type = ''login'', timestamp = 0\<rparr>"

text \<open>
  A browser that stays on one page, whose URL has no error marker and on which one
  button is found; every command goes through.
\<close>

definition quiet_driver :: "unit driver" where
  "quiet_driver =
     \<lparr>current_url = (\<lambda>d. ''http://localhost:3000/#/''),
      driver_title = (\<lambda>d. ''OWASP Juice Shop''),
      find_elements = (\<lambda>d. [login_button]),
      driver_get = (\<lambda>d u. d),
      click_element = (\<lambda>d x. (True, d)),
      type_into = (\<lambda>d x v. (True, d)),
      scroll_by = (\<lambda>d n. (True, d)),
      go_back = (\<lambda>d. (True, d)),
      do_refresh = (\<lambda>d. (True, d)),
      sleep = (\<lambda>d t. d)\<rparr>"

definition half_draw :: "unit randomness" where
  "half_draw = \<lparr>draw = 1 / 2, choice = 0, dropout = ()\<rparr>"


definition fresh_agent :: "(unit, unit) exploration_agent" where
  "fresh_agent = exploration_agent_init () () () 200 20 (1 / 1000)"

section \<open>Auxiliary notions for the statements\<close>

text \<open>The base reward and the idle penalty of \<open>calculate_exploration_reward\<close>, named.\<close>

definition base_reward :: "bool \<Rightarrow> real" where
  "base_reward success = (if success then 1 else - (1 / 2))"

definition idle_penalty :: "string \<Rightarrow> real" where
  "idle_penalty action =
     (if action \<in> set [''wait'', ''scroll_up'', ''scroll_down''] then 1 / 10 else 0)"

text \<open>Two runs of calculator calls.\<close>

definition first_calls :: "calculator_call list" where
  "first_calls = [ExplorationReward login_page ''click'' True, CoverageReward]"

definition later_calls :: "calculator_call list" where
  "later_calls =
     [ExplorationReward empty_page ''wait'' True, TotalReward 1 1 1 1 1, CoverageReward]"

text \<open>
  The invariant of a calculator: the fingerprint sets are finite, the two constant
  dictionaries are the ones of \<open>__init__\<close>, and no stored ratio exceeds the ratio of
  the current sets.
\<close>

definition calc_inv :: "reward_calculator \<Rightarrow> bool" where
  "calc_inv rc =
     (finite (pages_visited (coverage_metrics rc)) \<and>
      finite (elements_discovered (coverage_metrics rc)) \<and>
      finite (interactions_performed (coverage_metrics rc)) \<and>
      weights rc = initial_weights \<and>
      baseline_metrics rc = initial_baseline \<and>
      page_coverage (coverage_metrics rc) \<le> real (card (pages_visited (coverage_metrics rc))) / 50 \<and>
      element_coverage (coverage_metrics rc) \<le> real (card (elements_discovered (coverage_metrics rc))) / 1000 \<and>
      interaction_coverage (coverage_metrics rc)
        \<le> real (card (interactions_performed (coverage_metrics rc))) / 100)"

text \<open>The sets and the stored ratios of one calculator are below those of another.\<close>

definition coverage_le :: "reward_calculator \<Rightarrow> reward_calculator \<Rightarrow> bool" where
  "coverage_le rc rc' =
     (pages_visited (coverage_metrics rc) \<subseteq> pages_visited (coverage_metrics rc') \<and>
      elements_discovered (coverage_metrics rc) \<subseteq> elements_discovered (coverage_metrics rc') \<and>
      interactions_performed (coverage_metrics rc) \<subseteq> interactions_performed (coverage_metrics rc') \<and>
      page_coverage (coverage_metrics rc) \<le> page_coverage (coverage_metrics rc') \<and>
      element_coverage (coverage_metrics rc) \<le> element_coverage (coverage_metrics rc') \<and>
      interaction_coverage (coverage_metrics rc) \<le> interaction_coverage (coverage_metrics rc'))"

text \<open>
  A forward pass that gives the first action type, \<open>click\<close>, the Q-value 1 and the
  other nineteen outputs 0; and one that ties \<open>scroll_up\<close>, \<open>scroll_down\<close> and
  \<open>wait\<close> at the top.
\<close>

definition click_first :: "unit \<Rightarrow> unit \<Rightarrow> real list \<Rightarrow> real list" where
  "click_first net m state = 1 # replicate 19 0"



text \<open>An agent that has recorded one experience.\<close>

definition one_experience_agent :: "(unit, unit) exploration_agent" where
  "one_experience_agent = remember fresh_agent [] (Action ''wait'' None None) 0 [] False"


text \<open>The three fingerprint sets of one calculator are contained in those of another.\<close>

definition sets_le :: "reward_calculator \<Rightarrow> reward_calculator \<Rightarrow> bool" where
  "sets_le rc rc' =
     (pages_visited (coverage_metrics rc) \<subseteq> pages_visited (coverage_metrics rc') \<and>
      elements_discovered (coverage_metrics rc) \<subseteq> elements_discovered (coverage_metrics rc') \<and>
      interactions_performed (coverage_metrics rc) \<subseteq> interactions_performed (coverage_metrics rc'))"

section \<open>The state encoder\<close>

lemma set_slice_length:
  "set_slice v i xs = Inr v' \<Longrightarrow> length v' = length v"
  by (auto simp add: set_slice_def split: if_splits)

lemma set_slice_in_range:
  "i + length xs \<le> length v \<Longrightarrow> \<exists>v'. set_slice v i xs = Inr v' \<and> length v' = length v"
  by (simp add: set_slice_def)

text \<open>
  The first division of the element-type loop is \<open>0 / 0\<close> on a page without
  elements: the call raises before anything is written.
\<close>

lemma state_to_vector_no_elements:
  "elements ps = [] \<Longrightarrow> state_to_vector max_elements ps = Inl ZeroDivisionError"
  by (simp add: state_to_vector_def element_types_def element_counts_def initial_counts_def
      py_div_def)

lemma fill_element_types_length:
  "fill_element_types ts counts n (v, i) = Inr (v', i') \<Longrightarrow>
     length v' = length v \<and> i' = i + 10 * length ts"
proof (induction ts arbitrary: v i)
  case Nil
  then show ?case by simp
next
  case (Cons t ts)
  from Cons.prems obtain x w where
    w: "set_slice v i (replicate 10 x) = Inr w" and
    rest: "fill_element_types ts counts n (w, i + 10) = Inr (v', i')"
    by (auto split: option.splits sum.splits)
  from Cons.IH [OF rest] set_slice_length [OF w] show ?case by simp
qed

lemma fill_attribute_types_length:
  "fill_attribute_types as es (v, i) = Inr (v', i') \<Longrightarrow>
     length v' = length v \<and> i' = i + 5 * length as"
proof (induction as arbitrary: v i)
  case Nil
  then show ?case by simp
next
  case (Cons a as)
  from Cons.prems obtain x w where
    w: "set_slice v i (replicate 5 x) = Inr w" and
    rest: "fill_attribute_types as es (w, i + 5) = Inr (v', i')"
    by (auto split: sum.splits)
  from Cons.IH [OF rest] set_slice_length [OF w] show ?case by simp
qed

text \<open>Whenever the encoder returns, the vector has the configured length.\<close>

lemma state_to_vector_length:
  assumes "state_to_vector max_elements ps = Inr v"
  shows "length v = 175"
proof -
  from assms obtain v1 i1 v2 i2 pf v3 uf where
    a: "fill_element_types element_types (element_counts (elements ps))
          (length (elements ps)) (replicate vector_size 0, 0) = Inr (v1, i1)" and
    b: "fill_attribute_types attribute_types (elements ps) (v1, i1) = Inr (v2, i2)" and
    c: "set_slice v2 i2 pf = Inr v3" and
    d: "set_slice v3 (i2 + 10) uf = Inr v"
    unfolding state_to_vector_def by (auto split: sum.splits prod.splits)
  have "length v = length (replicate vector_size (0::real))"
    using fill_element_types_length [OF a] fill_attribute_types_length [OF b]
      set_slice_length [OF c] set_slice_length [OF d] by simp
  then show ?thesis
    by (simp add: vector_size_def element_types_def attribute_types_def)
qed

lemma count_element_dom: "dom (count_element e counts) = dom counts"
  by (auto simp add: count_element_def split: option.splits)

lemma element_counts_dom: "dom (fold count_element es counts) = dom counts"
  by (induction es arbitrary: counts) (simp_all add: count_element_dom)

lemma fill_element_types_ok:
  assumes "set ts \<subseteq> dom counts" "n \<noteq> 0" "i + 10 * length ts \<le> length v"
  shows "\<exists>v'. fill_element_types ts counts n (v, i) = Inr (v', i + 10 * length ts) \<and>
              length v' = length v"
  using assms
proof (induction ts arbitrary: v i)
  case Nil
  then show ?case by simp
next
  case (Cons t ts)
  from Cons.prems obtain c where c: "counts t = Some c" by auto
  from Cons.prems obtain w where
    w: "set_slice v i (replicate 10 (real c / real n)) = Inr w" "length w = length v"
    using set_slice_in_range [of i "replicate 10 (real c / real n)" v] by auto
  from Cons.IH [of "i + 10" w] Cons.prems w
  obtain v' where "fill_element_types ts counts n (w, i + 10) = Inr (v', i + 10 + 10 * length ts)"
    "length v' = length w" by auto
  with c w Cons.prems show ?case by (simp add: py_div_def)
qed

lemma fill_attribute_types_ok:
  assumes "es \<noteq> []" "i + 5 * length as \<le> length v"
  shows "\<exists>v'. fill_attribute_types as es (v, i) = Inr (v', i + 5 * length as) \<and>
              length v' = length v"
  using assms
proof (induction as arbitrary: v i)
  case Nil
  then show ?case by simp
next
  case (Cons a as)
  let ?x = "real (attr_count a es) / real (length es)"
  from Cons.prems obtain w where
    w: "set_slice v i (replicate 5 ?x) = Inr w" "length w = length v"
    using set_slice_in_range [of i "replicate 5 ?x" v] by auto
  from Cons.IH [of "i + 5" w] Cons.prems w
  obtain v' where "fill_attribute_types as es (w, i + 5) = Inr (v', i + 5 + 5 * length as)"
    "length v' = length w" by auto
  with w Cons.prems show ?case by (simp add: py_div_def)
qed

lemma user_features_no_context:
  "user_context ps = Map.empty \<Longrightarrow> user_features ps = Inr [0, 0, 0, 0, 0]"
  by (simp add: user_features_def dict_get_def py_div_def)

text \<open>
  On a page with at least one element and the empty user context the orchestrator
  passes, the encoder returns a vector of the configured length.
\<close>

lemma state_to_vector_ok:
  assumes "elements ps \<noteq> []" "max_elements \<noteq> 0" "user_context ps = Map.empty"
  shows "\<exists>v. state_to_vector max_elements ps = Inr v \<and> length v = 175"
proof -
  have dom: "set element_types \<subseteq> dom (element_counts (elements ps))"
    unfolding element_counts_def element_counts_dom
    by (simp add: initial_counts_def element_types_def)
  have n: "length (elements ps) \<noteq> 0" using assms by simp
  obtain v1 where v1:
    "fill_element_types element_types (element_counts (elements ps))
       (length (elements ps)) (replicate vector_size 0, 0) = Inr (v1, 110)" "length v1 = 175"
    using fill_element_types_ok [OF dom n, of 0 "replicate vector_size 0"]
    by (auto simp add: vector_size_def element_types_def attribute_types_def)
  obtain v2 where v2:
    "fill_attribute_types attribute_types (elements ps) (v1, 110) = Inr (v2, 145)" "length v2 = 175"
    using fill_attribute_types_ok [OF assms(1), of 110 attribute_types v1] v1
    by (auto simp add: attribute_types_def)
  obtain pf where pf: "page_features max_elements ps = Inr pf" "length pf = 10"
    using assms(2) by (simp add: page_features_def py_div_def)
  obtain v3 where v3: "set_slice v2 145 pf = Inr v3" "length v3 = 175"
    using set_slice_in_range [of 145 pf v2] pf v2 by auto
  obtain v4 where v4: "set_slice v3 155 [0, 0, 0, 0, 0] = Inr v4" "length v4 = 175"
    using set_slice_in_range [of 155 "[0, 0, 0, 0, 0]" v3] v3 by auto
  show ?thesis
    unfolding state_to_vector_def
    using v1 v2 pf v3 v4 user_features_no_context [OF assms(3)] by simp
qed

text \<open>
  C1. The claim asks for a vector of length 175 on every page, the page without
  elements included. The code divides the element counts by \<open>len(elements)\<close>
  without a guard: on the page without elements, as \<open>_get_page_state\<close> builds it,
  \<open>state_to_vector\<close> raises \<open>ZeroDivisionError\<close> and returns no vector.
\<close>

theorem state_to_vector_empty_page_raises:
  "state_to_vector default_max_elements empty_page = Inl ZeroDivisionError"
  by (rule state_to_vector_no_elements) (simp add: empty_page_def)

section \<open>The reward calculator\<close>

text \<open>The interaction key never holds an element fingerprint.\<close>

lemma interaction_key_unknown:
  "interaction_key page_hash action element_hash = page_hash @ ''_'' @ action @ ''_unknown''"
  by (simp add: interaction_key_def hasattr_locals_element_hash_def)

lemma discover_elements_set:
  "fst (discover_elements md5 es (D, n, h)) = D \<union> hash_element md5 ` set es"
  by (induction es arbitrary: D n h) auto

lemma discover_elements_seen:
  "hash_element md5 ` set es \<subseteq> D \<Longrightarrow> fst (snd (discover_elements md5 es (D, n, h))) = n"
  by (induction es arbitrary: D n h) auto

lemma exploration_reward_value:
  "fst (calculate_exploration_reward md5 rc ps action success) =
     base_reward success
     + (if hash_page md5 ps \<notin> pages_visited (coverage_metrics rc) then 2 else 0)
     + real (fst (snd (discover_elements md5 (elements ps)
                         (elements_discovered (coverage_metrics rc), 0, None)))) / 2
     + (if action \<in> set [''click'', ''type'', ''select''] \<and> success \<and>
           hash_page md5 ps @ ''_'' @ action @ ''_unknown''
             \<notin> interactions_performed (coverage_metrics rc)
        then 1 else 0)
     - idle_penalty action"
  by (simp add: calculate_exploration_reward_def Let_def interaction_key_unknown base_reward_def
      idle_penalty_def split: prod.splits)

lemma exploration_reward_state:
  "coverage_metrics (snd (calculate_exploration_reward md5 rc ps action success)) =
     (coverage_metrics rc)\<lparr>
       pages_visited := insert (hash_page md5 ps) (pages_visited (coverage_metrics rc)),
       elements_discovered :=
         elements_discovered (coverage_metrics rc) \<union> hash_element md5 ` set (elements ps),
       interactions_performed :=
         (if action \<in> set [''click'', ''type'', ''select''] \<and> success
          then insert (hash_page md5 ps @ ''_'' @ action @ ''_unknown'')
                 (interactions_performed (coverage_metrics rc))
          else interactions_performed (coverage_metrics rc))\<rparr>"
proof -
  obtain D n h where
    d: "discover_elements md5 (elements ps) (elements_discovered (coverage_metrics rc), 0, None) = (D, n, h)"
    by (metis prod_cases3)
  have D: "D = elements_discovered (coverage_metrics rc) \<union> hash_element md5 ` set (elements ps)"
    using discover_elements_set [of md5 "elements ps" "elements_discovered (coverage_metrics rc)" 0 None] d
    by simp
  show ?thesis
    by (auto simp add: calculate_exploration_reward_def Let_def interaction_key_unknown d D
        insert_absorb)
qed

lemma exploration_reward_frame:
  "weights (snd (calculate_exploration_reward md5 rc ps action success)) = weights rc"
  "baseline_metrics (snd (calculate_exploration_reward md5 rc ps action success)) =
     baseline_metrics rc"
  "quality_metrics (snd (calculate_exploration_reward md5 rc ps action success)) = quality_metrics rc"
  by (simp_all add: calculate_exploration_reward_def Let_def split: prod.splits)

lemma calc_inv_init: "calc_inv reward_calculator_init"
  by (simp add: calc_inv_def reward_calculator_init_def new_coverage_metrics_def)

lemma calc_inv_reset: "calc_inv rc \<Longrightarrow> calc_inv (reset_metrics rc)"
  by (simp add: calc_inv_def reset_metrics_def new_coverage_metrics_def)

lemma card_ratio_mono:
  "finite B \<Longrightarrow> A \<subseteq> B \<Longrightarrow> x \<le> real (card A) / c \<Longrightarrow> 0 < c \<Longrightarrow> x \<le> real (card B) / c"
proof -
  assume "finite B" "A \<subseteq> B" and x: "x \<le> real (card A) / c" and c: "0 < c"
  then have "real (card A) \<le> real (card B)" by (simp add: card_mono)
  then have "real (card A) / c \<le> real (card B) / c" using c by (simp add: divide_right_mono)
  with x show ?thesis by simp
qed

lemma calc_inv_exploration:
  assumes "calc_inv rc"
  shows "calc_inv (snd (calculate_exploration_reward md5 rc ps action success))"
proof -
  let ?rc' = "snd (calculate_exploration_reward md5 rc ps action success)"
  note st = exploration_reward_state [of md5 rc ps action success]
  have fin: "finite (pages_visited (coverage_metrics ?rc'))" "finite (elements_discovered (coverage_metrics ?rc'))"
    "finite (interactions_performed (coverage_metrics ?rc'))"
    using assms by (simp_all add: st calc_inv_def)
  have sub: "pages_visited (coverage_metrics rc) \<subseteq> pages_visited (coverage_metrics ?rc')"
    "elements_discovered (coverage_metrics rc) \<subseteq> elements_discovered (coverage_metrics ?rc')"
    "interactions_performed (coverage_metrics rc) \<subseteq> interactions_performed (coverage_metrics ?rc')"
    by (auto simp add: st)
  have rat: "page_coverage (coverage_metrics ?rc') = page_coverage (coverage_metrics rc)"
    "element_coverage (coverage_metrics ?rc') = element_coverage (coverage_metrics rc)"
    "interaction_coverage (coverage_metrics ?rc') = interaction_coverage (coverage_metrics rc)"
    by (simp_all add: st)
  have inv: "page_coverage (coverage_metrics rc) \<le> real (card (pages_visited (coverage_metrics rc))) / 50"
    "element_coverage (coverage_metrics rc) \<le> real (card (elements_discovered (coverage_metrics rc))) / 1000"
    "interaction_coverage (coverage_metrics rc) \<le> real (card (interactions_performed (coverage_metrics rc))) / 100"
    using assms by (simp_all add: calc_inv_def)
  have "page_coverage (coverage_metrics rc) \<le> real (card (pages_visited (coverage_metrics ?rc'))) / 50"
    by (rule card_ratio_mono [OF fin(1) sub(1) inv(1)]) simp
  moreover have "element_coverage (coverage_metrics rc)
      \<le> real (card (elements_discovered (coverage_metrics ?rc'))) / 1000"
    by (rule card_ratio_mono [OF fin(2) sub(2) inv(2)]) simp
  moreover have "interaction_coverage (coverage_metrics rc)
      \<le> real (card (interactions_performed (coverage_metrics ?rc'))) / 100"
    by (rule card_ratio_mono [OF fin(3) sub(3) inv(3)]) simp
  moreover have "weights ?rc' = initial_weights" "baseline_metrics ?rc' = initial_baseline"
    using assms by (simp_all add: exploration_reward_frame calc_inv_def)
  ultimately show ?thesis
    unfolding calc_inv_def rat using fin by blast
qed

lemma coverage_le_exploration:
  "coverage_le rc (snd (calculate_exploration_reward md5 rc ps action success))"
  by (auto simp add: coverage_le_def exploration_reward_state)

lemma coverage_reward_result:
  assumes "calc_inv rc"
  shows "\<exists>r. calculate_coverage_reward rc =
           Inr (r, rc\<lparr>coverage_metrics := (coverage_metrics rc)\<lparr>
                    page_coverage := real (card (pages_visited (coverage_metrics rc))) / 50,
                    element_coverage := real (card (elements_discovered (coverage_metrics rc))) / 1000,
                    interaction_coverage :=
                      real (card (interactions_performed (coverage_metrics rc))) / 100\<rparr>\<rparr>)"
  using assms
  by (simp add: calc_inv_def calculate_coverage_reward_def coverage_ratio_def dict_lookup_def
      initial_baseline_def py_div_def Let_def)

lemma total_reward_result:
  assumes "calc_inv rc"
  shows "calculate_total_reward rc e c q b f =
           Inr (e * (30 / 100) + c * (25 / 100) + q * (20 / 100) + b * (15 / 100) + f * (10 / 100))"
  using assms
  by (simp add: calc_inv_def calculate_total_reward_def dict_lookup_def initial_weights_def)

lemma run_call_total: "calc_inv rc \<Longrightarrow> \<exists>rc'. run_call md5 rc c = Inr rc'"
proof (cases c)
  case CoverageReward
  assume "calc_inv rc"
  from coverage_reward_result [OF this] CoverageReward show ?thesis by auto
next
  case (TotalReward e c q b f)
  assume "calc_inv rc"
  from total_reward_result [OF this] TotalReward show ?thesis by simp
qed simp_all

lemma run_call_inv:
  assumes "calc_inv rc" "run_call md5 rc c = Inr rc'"
  shows "calc_inv rc'"
proof (cases c)
  case (ExplorationReward ps action success)
  with assms calc_inv_exploration show ?thesis by auto
next
  case CoverageReward
  from coverage_reward_result [OF assms(1)] assms CoverageReward show ?thesis
    by (auto simp add: calc_inv_def)
next
  case (TotalReward e c q b f)
  with assms show ?thesis by (auto split: sum.splits)
next
  case ResetMetrics
  with assms calc_inv_reset show ?thesis by auto
qed (use assms in auto)

lemma run_call_mono:
  assumes "calc_inv rc" "run_call md5 rc c = Inr rc'" "c \<noteq> ResetMetrics"
  shows "coverage_le rc rc'"
proof (cases c)
  case (ExplorationReward ps action success)
  with assms coverage_le_exploration show ?thesis by auto
next
  case CoverageReward
  from coverage_reward_result [OF assms(1)] assms CoverageReward show ?thesis
    by (auto simp add: calc_inv_def coverage_le_def)
next
  case (TotalReward e c q b f)
  with assms show ?thesis by (auto simp add: coverage_le_def split: sum.splits)
qed (use assms in \<open>auto simp add: coverage_le_def\<close>)

lemma coverage_le_trans: "coverage_le a b \<Longrightarrow> coverage_le b c \<Longrightarrow> coverage_le a c"
  by (auto simp add: coverage_le_def)

lemma run_calls_inv:
  "calc_inv rc \<Longrightarrow> run_calls md5 rc cs = Inr rc' \<Longrightarrow> calc_inv rc'"
proof (induction cs arbitrary: rc)
  case Nil
  then show ?case by simp
next
  case (Cons c cs)
  from Cons.prems obtain rc1 where 1: "run_call md5 rc c = Inr rc1" "run_calls md5 rc1 cs = Inr rc'"
    by (auto split: sum.splits)
  from Cons.IH [OF run_call_inv [OF Cons.prems(1) 1(1)] 1(2)] show ?case .
qed

lemma run_calls_total: "calc_inv rc \<Longrightarrow> \<exists>rc'. run_calls md5 rc cs = Inr rc'"
proof (induction cs arbitrary: rc)
  case Nil
  then show ?case by simp
next
  case (Cons c cs)
  from run_call_total [OF Cons.prems] obtain rc1 where 1: "run_call md5 rc c = Inr rc1" by blast
  from Cons.IH [OF run_call_inv [OF Cons.prems 1]] 1 show ?case by simp
qed

lemma run_calls_mono:
  "calc_inv rc \<Longrightarrow> run_calls md5 rc cs = Inr rc' \<Longrightarrow> ResetMetrics \<notin> set cs \<Longrightarrow> coverage_le rc rc'"
proof (induction cs arbitrary: rc)
  case Nil
  then show ?case by (simp add: coverage_le_def)
next
  case (Cons c cs)
  from Cons.prems obtain rc1 where 1: "run_call md5 rc c = Inr rc1" "run_calls md5 rc1 cs = Inr rc'"
    by (auto split: sum.splits)
  from Cons.prems have c: "c \<noteq> ResetMetrics" "ResetMetrics \<notin> set cs" by auto
  from coverage_le_trans [OF run_call_mono [OF Cons.prems(1) 1(1) c(1)]
      Cons.IH [OF run_call_inv [OF Cons.prems(1) 1(1)] 1(2) c(2)]]
  show ?case .
qed


text \<open>
  C3. The claim keys the +1.0 interaction bonus on the target element. The code
  builds the key from the page fingerprint, the action type and the text
  \<open>unknown\<close>, and the method is not even given the target: after one successful
  click on the login page, a second successful click on that page (on whichever of
  its two elements) earns the base reward 1.0 alone, and the set of interactions
  holds the single key ending in \<open>_click_unknown\<close>.
\<close>

theorem exploration_reward_second_target_no_bonus:
  "fst (calculate_exploration_reward md5
          (snd (calculate_exploration_reward md5 reward_calculator_init login_page ''click'' True))
          login_page ''click'' True) = 1
   \<and> interactions_performed (coverage_metrics (snd (calculate_exploration_reward md5
          (snd (calculate_exploration_reward md5 reward_calculator_init login_page ''click'' True))
          login_page ''click'' True)))
       = {hash_page md5 login_page @ ''_click_unknown''}"
  by (simp add: exploration_reward_value exploration_reward_state discover_elements_seen
      base_reward_def idle_penalty_def reward_calculator_init_def new_coverage_metrics_def)



text \<open>
  C6. Let a run of method calls lead from \<open>__init__\<close> to a calculator, and let a
  further run without \<open>reset_metrics\<close> lead on from there. Then none of the three
  stored coverage ratios has decreased and each of the three fingerprint sets
  contains the earlier one; \<open>calculate_coverage_reward\<close> stores the sizes of the sets
  divided by the baselines 50, 1000 and 100; and after \<open>reset_metrics\<close> the three sets
  are empty and the three ratios are zero.
\<close>

theorem coverage_ratios_monotone:
  assumes "run_calls md5 reward_calculator_init cs = Inr rc"
    and "ResetMetrics \<notin> set cs'"
    and "run_calls md5 rc cs' = Inr rc'"
  shows "page_coverage (coverage_metrics rc) \<le> page_coverage (coverage_metrics rc') \<and>
         element_coverage (coverage_metrics rc) \<le> element_coverage (coverage_metrics rc') \<and>
         interaction_coverage (coverage_metrics rc) \<le> interaction_coverage (coverage_metrics rc') \<and>
         pages_visited (coverage_metrics rc) \<subseteq> pages_visited (coverage_metrics rc') \<and>
         elements_discovered (coverage_metrics rc) \<subseteq> elements_discovered (coverage_metrics rc') \<and>
         interactions_performed (coverage_metrics rc) \<subseteq> interactions_performed (coverage_metrics rc') \<and>
         (\<exists>r rc''. calculate_coverage_reward rc' = Inr (r, rc'') \<and>
            page_coverage (coverage_metrics rc'') = real (card (pages_visited (coverage_metrics rc'))) / 50 \<and>
            element_coverage (coverage_metrics rc'')
              = real (card (elements_discovered (coverage_metrics rc'))) / 1000 \<and>
            interaction_coverage (coverage_metrics rc'')
              = real (card (interactions_performed (coverage_metrics rc'))) / 100) \<and>
         pages_visited (coverage_metrics (reset_metrics rc')) = {} \<and>
         elements_discovered (coverage_metrics (reset_metrics rc')) = {} \<and>
         interactions_performed (coverage_metrics (reset_metrics rc')) = {} \<and>
         page_coverage (coverage_metrics (reset_metrics rc')) = 0 \<and>
         element_coverage (coverage_metrics (reset_metrics rc')) = 0 \<and>
         interaction_coverage (coverage_metrics (reset_metrics rc')) = 0"
proof -
  have inv: "calc_inv rc" by (rule run_calls_inv [OF calc_inv_init assms(1)])
  have inv': "calc_inv rc'" by (rule run_calls_inv [OF inv assms(3)])
  have le: "coverage_le rc rc'" by (rule run_calls_mono [OF inv assms(3) assms(2)])
  from coverage_reward_result [OF inv'] obtain r where
    "calculate_coverage_reward rc' =
       Inr (r, rc'\<lparr>coverage_metrics := (coverage_metrics rc')\<lparr>
                page_coverage := real (card (pages_visited (coverage_metrics rc'))) / 50,
                element_coverage := real (card (elements_discovered (coverage_metrics rc'))) / 1000,
                interaction_coverage :=
                  real (card (interactions_performed (coverage_metrics rc'))) / 100\<rparr>\<rparr>)"
    by blast
  then have recomputed: "\<exists>r rc''. calculate_coverage_reward rc' = Inr (r, rc'') \<and>
      page_coverage (coverage_metrics rc'') = real (card (pages_visited (coverage_metrics rc'))) / 50 \<and>
      element_coverage (coverage_metrics rc'') = real (card (elements_discovered (coverage_metrics rc'))) / 1000 \<and>
      interaction_coverage (coverage_metrics rc'')
        = real (card (interactions_performed (coverage_metrics rc'))) / 100"
    by simp
  have reset: "coverage_metrics (reset_metrics rc') = new_coverage_metrics"
    by (simp add: reset_metrics_def)
  from le recomputed show ?thesis
    unfolding reset by (simp add: coverage_le_def new_coverage_metrics_def)
qed

lemma first_run_values:
  "run_calls (\<lambda>s. s) reward_calculator_init first_calls = Inr rc \<Longrightarrow>
     page_coverage (coverage_metrics rc) = 1 / 50 \<and> element_coverage (coverage_metrics rc) = 2 / 1000 \<and>
     interaction_coverage (coverage_metrics rc) = 1 / 100"
  using coverage_reward_result [OF calc_inv_exploration [OF calc_inv_init,
        of "\<lambda>s. s" login_page "''click''" True]]
  by (auto simp add: first_calls_def exploration_reward_state reward_calculator_init_def
      new_coverage_metrics_def hash_element_def login_page_def login_button_def email_input_def)

theorem coverage_ratios_monotone_witness:
  "(case run_calls (\<lambda>s. s) reward_calculator_init first_calls of
      Inl err \<Rightarrow> False
    | Inr rc \<Rightarrow>
        (case run_calls (\<lambda>s. s) rc later_calls of
           Inl err \<Rightarrow> False
         | Inr rc' \<Rightarrow>
             ResetMetrics \<notin> set later_calls \<and>
             page_coverage (coverage_metrics rc) = 1 / 50 \<and>
             page_coverage (coverage_metrics rc) \<le> page_coverage (coverage_metrics rc') \<and>
             element_coverage (coverage_metrics rc) \<le> element_coverage (coverage_metrics rc') \<and>
             interaction_coverage (coverage_metrics rc) \<le> interaction_coverage (coverage_metrics rc') \<and>
             pages_visited (coverage_metrics rc) \<subseteq> pages_visited (coverage_metrics rc') \<and>
             pages_visited (coverage_metrics (reset_metrics rc')) = {} \<and>
             page_coverage (coverage_metrics (reset_metrics rc')) = 0))"
proof -
  obtain rc where rc: "run_calls (\<lambda>s. s) reward_calculator_init first_calls = Inr rc"
    using run_calls_total [OF calc_inv_init] by blast
  obtain rc' where rc': "run_calls (\<lambda>s. s) rc later_calls = Inr rc'"
    using run_calls_total [OF run_calls_inv [OF calc_inv_init rc]] by blast
  have no_reset: "ResetMetrics \<notin> set later_calls" by (simp add: later_calls_def)
  from coverage_ratios_monotone [OF rc no_reset rc'] first_run_values [OF rc] rc rc' no_reset
  show ?thesis by simp
qed

text \<open>Without a reset the fingerprint sets only grow, whatever the calls.\<close>

lemma coverage_reward_sets:
  "calculate_coverage_reward rc = Inr (r, rc') \<Longrightarrow>
     pages_visited (coverage_metrics rc') = pages_visited (coverage_metrics rc) \<and>
     elements_discovered (coverage_metrics rc') = elements_discovered (coverage_metrics rc) \<and>
     interactions_performed (coverage_metrics rc') = interactions_performed (coverage_metrics rc)"
  by (auto simp add: calculate_coverage_reward_def Let_def split: sum.splits)

lemma run_call_sets:
  assumes "run_call md5 rc c = Inr rc'" "c \<noteq> ResetMetrics"
  shows "sets_le rc rc'"
proof (cases c)
  case (ExplorationReward ps action success)
  with assms show ?thesis by (auto simp add: sets_le_def exploration_reward_state)
next
  case CoverageReward
  with assms coverage_reward_sets [of rc] show ?thesis
    by (auto simp add: sets_le_def split: sum.splits)
next
  case (TotalReward e c q b f)
  with assms show ?thesis by (auto simp add: sets_le_def split: sum.splits)
qed (use assms in \<open>auto simp add: sets_le_def\<close>)

lemma run_calls_sets:
  "run_calls md5 rc cs = Inr rc' \<Longrightarrow> ResetMetrics \<notin> set cs \<Longrightarrow> sets_le rc rc'"
proof (induction cs arbitrary: rc)
  case Nil
  then show ?case by (simp add: sets_le_def)
next
  case (Cons c cs)
  from Cons.prems obtain rc1 where 1: "run_call md5 rc c = Inr rc1" "run_calls md5 rc1 cs = Inr rc'"
    by (auto split: sum.splits)
  from Cons.prems have c: "c \<noteq> ResetMetrics" "ResetMetrics \<notin> set cs" by auto
  from run_call_sets [OF 1(1) c(1)] Cons.IH [OF 1(2) c(2)] show ?case
    by (auto simp add: sets_le_def)
qed

lemma repeat_reward:
  assumes "sets_le (snd (calculate_exploration_reward md5 rc ps action success)) rc2"
  shows "fst (calculate_exploration_reward md5 rc2 ps action success) =
           base_reward success - idle_penalty action"
proof -
  let ?rc1 = "snd (calculate_exploration_reward md5 rc ps action success)"
  note st = exploration_reward_state [of md5 rc ps action success]
  from assms have page: "hash_page md5 ps \<in> pages_visited (coverage_metrics rc2)"
    by (auto simp add: sets_le_def st)
  from assms have "hash_element md5 ` set (elements ps) \<subseteq> elements_discovered (coverage_metrics rc2)"
    by (auto simp add: sets_le_def st)
  then have seen: "fst (snd (discover_elements md5 (elements ps)
                          (elements_discovered (coverage_metrics rc2), 0, None))) = 0"
    by (rule discover_elements_seen)
  have key: "action \<in> set [''click'', ''type'', ''select''] \<and> success \<Longrightarrow>
      hash_page md5 ps @ ''_'' @ action @ ''_unknown'' \<in> interactions_performed (coverage_metrics rc2)"
    using assms by (auto simp add: sets_le_def exploration_reward_state)
  show ?thesis
    unfolding exploration_reward_value [of md5 rc2] seen using page key by auto
qed

text \<open>
  C7. When the page's fingerprint has not been seen, the reward of the call is at
  least 2.0 above the reward of any later call of the run (before a reset) with the
  same page, action type and success flag; the call that follows at once is the
  case of no calls in between.
\<close>

theorem exploration_reward_new_page_bonus:
  assumes "hash_page md5 ps \<notin> pages_visited (coverage_metrics rc)"
    and "ResetMetrics \<notin> set cs"
    and "run_calls md5 (snd (calculate_exploration_reward md5 rc ps action success)) cs = Inr rc2"
  shows "fst (calculate_exploration_reward md5 rc ps action success) \<ge>
         fst (calculate_exploration_reward md5 rc2 ps action success) + 2"
proof -
  have r2: "fst (calculate_exploration_reward md5 rc2 ps action success) =
              base_reward success - idle_penalty action"
    by (rule repeat_reward [OF run_calls_sets [OF assms(3) assms(2)]])
  show ?thesis
    unfolding r2 unfolding exploration_reward_value [of md5 rc] using assms(1) by simp
qed

lemma first_click_reward:
  "fst (calculate_exploration_reward (\<lambda>s. s) reward_calculator_init login_page ''click'' True) = 5"
  by (simp add: exploration_reward_value reward_calculator_init_def new_coverage_metrics_def
      base_reward_def idle_penalty_def login_page_def hash_element_def login_button_def
      email_input_def)

theorem exploration_reward_new_page_bonus_witness:
  "hash_page (\<lambda>s. s) login_page \<notin> pages_visited (coverage_metrics reward_calculator_init) \<and>
   ResetMetrics \<notin> set later_calls \<and>
   fst (calculate_exploration_reward (\<lambda>s. s) reward_calculator_init login_page ''click'' True) = 5 \<and>
   (case run_calls (\<lambda>s. s)
           (snd (calculate_exploration_reward (\<lambda>s. s) reward_calculator_init login_page
                   ''click'' True)) later_calls of
      Inl err \<Rightarrow> False
    | Inr rc2 \<Rightarrow>
        fst (calculate_exploration_reward (\<lambda>s. s) rc2 login_page ''click'' True) = 1 \<and>
        fst (calculate_exploration_reward (\<lambda>s. s) reward_calculator_init login_page ''click'' True)
          \<ge> fst (calculate_exploration_reward (\<lambda>s. s) rc2 login_page ''click'' True) + 2)"
proof -
  let ?rc1 = "snd (calculate_exploration_reward (\<lambda>s. s) reward_calculator_init login_page
                     ''click'' True)"
  have new: "hash_page (\<lambda>s. s) login_page \<notin> pages_visited (coverage_metrics reward_calculator_init)"
    by (simp add: reward_calculator_init_def new_coverage_metrics_def)
  have no_reset: "ResetMetrics \<notin> set later_calls" by (simp add: later_calls_def)
  obtain rc2 where rc2: "run_calls (\<lambda>s. s) ?rc1 later_calls = Inr rc2"
    using run_calls_total [OF calc_inv_exploration [OF calc_inv_init]] by blast
  have "fst (calculate_exploration_reward (\<lambda>s. s) rc2 login_page ''click'' True) = 1"
    using repeat_reward [OF run_calls_sets [OF rc2 no_reset]] by (simp add: base_reward_def idle_penalty_def)
  with exploration_reward_new_page_bonus [OF new no_reset rc2] new no_reset first_click_reward rc2
  show ?thesis by simp
qed

section \<open>The exploration agent\<close>

text \<open>
  C8. With fewer experiences in the replay buffer than the batch size, \<open>replay\<close>
  returns without an error and the agent after it is the agent before it: networks,
  optimizer, epsilon and buffer included. (The batch size is 32 from \<open>__init__\<close> on;
  no method assigns it.)
\<close>

theorem replay_noop_below_batch_size:
  assumes "length (memory agent) < batch_size agent"
  shows "replay sample learn agent = Inr agent"
  using assms by (simp add: replay_def)

theorem replay_noop_below_batch_size_witness:
  "length (memory one_experience_agent) < batch_size one_experience_agent \<and>
   batch_size one_experience_agent = 32 \<and>
   replay (\<lambda>m n. take n m) (\<lambda>q t opt batch idxs. (q, opt)) one_experience_agent
     = Inr one_experience_agent"
proof -
  have small: "length (memory one_experience_agent) < batch_size one_experience_agent"
    by (simp add: one_experience_agent_def remember_def fresh_agent_def exploration_agent_init_def
        deque_append_def)
  have "batch_size one_experience_agent = 32"
    by (simp add: one_experience_agent_def remember_def fresh_agent_def exploration_agent_init_def)
  with replay_noop_below_batch_size [OF small] small show ?thesis by simp
qed

section \<open>The test-generation agent\<close>

lemma create_test_scenario_pattern:
  "pattern (create_test_scenario n act data) = test_patterns ! nat (act mod int (length test_patterns))"
  by (simp add: create_test_scenario_def Let_def)

lemma login_flow_iff:
  "pattern (create_test_scenario n act data) = ''login_flow'' \<longleftrightarrow> act mod 10 = 0"
proof -
  have "\<exists>k<10. act mod 10 = int k"
    by (rule exI [of _ "nat (act mod 10)"]) simp
  then obtain k where k: "k < 10" "act mod 10 = int k" by blast
  from k(1) have "k = 0 \<or> k = 1 \<or> k = 2 \<or> k = 3 \<or> k = 4 \<or> k = 5 \<or> k = 6 \<or> k = 7 \<or> k = 8 \<or> k = 9"
    by arith
  then show ?thesis
    unfolding create_test_scenario_pattern
    by (auto simp add: test_patterns_def k(2))
qed

text \<open>
  C9. A scenario created for the pattern \<open>login_flow\<close> has the four steps navigate,
  type, type, click in that order, and an assertion of type \<open>url_contains\<close>.
\<close>

theorem login_flow_scenario:
  assumes "pattern (create_test_scenario n act data) = ''login_flow''"
  shows "map (\<lambda>s. s ''action'') (steps (create_test_scenario n act data)) =
           [Some (PyStr ''navigate''), Some (PyStr ''type''), Some (PyStr ''type''),
            Some (PyStr ''click'')]
         \<and> (\<exists>a \<in> set (assertions (create_test_scenario n act data)).
               a ''type'' = Some (PyStr ''url_contains''))"
proof -
  from assms have "test_patterns ! nat (act mod int (length test_patterns)) = ''login_flow''"
    by (simp add: create_test_scenario_pattern)
  then show ?thesis by (simp add: create_test_scenario_def Let_def)
qed

theorem login_flow_scenario_witness:
  "pattern (create_test_scenario 3 20 ()) = ''login_flow'' \<and>
   name (create_test_scenario 3 20 ()) = ''marl_generated_login_flow_3'' \<and>
   map (\<lambda>s. s ''action'') (steps (create_test_scenario 3 20 ())) =
     [Some (PyStr ''navigate''), Some (PyStr ''type''), Some (PyStr ''type''),
      Some (PyStr ''click'')] \<and>
   (\<exists>a \<in> set (assertions (create_test_scenario 3 20 ())).
      a ''type'' = Some (PyStr ''url_contains''))"
proof -
  have p: "pattern (create_test_scenario 3 20 ()) = ''login_flow''"
    by (simp add: create_test_scenario_pattern test_patterns_def)
  have n: "name (create_test_scenario 3 20 ()) = ''marl_generated_login_flow_3''"
    by (simp add: create_test_scenario_def test_patterns_def Let_def str_of_nat.simps)
  from login_flow_scenario [OF p] p n show ?thesis by simp
qed

section \<open>Greedy action selection\<close>













section \<open>The episode loops\<close>

lemma get_available_actions_nonempty: "get_available_actions ps \<noteq> []"
  by (simp add: get_available_actions_def)

lemma exploration_phase_never_no_actions:
  "exploration_phase forward drv rnd todo (d, agent, cur, acc) \<noteq> Inr (NoActions, st)"
proof (induction todo arbitrary: d agent cur acc)
  case Nil
  then show ?case by simp
next
  case (Cons step rest)
  show ?case
    using Cons.IH
    by (auto simp add: Let_def get_available_actions_nonempty split: sum.splits prod.splits)
qed

lemma trainer_loop_never_no_actions:
  "trainer_loop md5 forward drv rnd todo (d, agent, rc, cur, n, k, acc) \<noteq> Inr (NoActions, st)"
proof (induction todo arbitrary: d agent rc cur n k acc)
  case Nil
  then show ?case by simp
next
  case (Cons step rest)
  show ?case
    using Cons.IH
    by (auto simp add: Let_def get_available_actions_nonempty split: sum.splits prod.splits)
qed

lemma deque_append_set: "set (deque_append n xs x) \<subseteq> insert x (set xs)"
  by (auto simp add: deque_append_def dest: in_set_dropD)

lemma remember_memory_set:
  "set (memory (remember agent s a r s' dn)) \<subseteq> insert (s, a, r, s', dn) (set (memory agent))"
  by (simp add: remember_def deque_append_set)

lemma is_episode_done_below_cap:
  "step < 50 \<Longrightarrow> is_episode_done drv d step = str_contains ''error'' (lower (current_url drv d))"
  by (simp add: is_episode_done_def)

lemma exploration_phase_flags:
  assumes "\<forall>step\<in>set todo. step < 50"
    and "exploration_phase forward drv rnd todo (d, agent, cur, acc) = Inr (reason, d', agent', cur', acc')"
  shows "(reason = Done \<longrightarrow> str_contains ''error'' (lower (current_url drv d'))) \<and>
         (reason \<noteq> Done \<longrightarrow> (\<forall>e\<in>set (memory agent'). e \<in> set (memory agent) \<or> \<not> exp_done e))"
  using assms
proof (induction todo arbitrary: d agent cur acc)
  case Nil
  then show ?case by auto
next
  case (Cons step rest)
  from Cons.prems(1) have step: "step < 50" and rest: "\<forall>s\<in>set rest. s < 50" by auto
  let ?avail = "get_available_actions (get_page_state drv d)"
  from Cons.prems(2) obtain act where act: "get_action forward (rnd step) agent cur ?avail = Inr act"
    by (auto simp add: Let_def get_available_actions_nonempty split: sum.splits)
  obtain reward d1 where ex: "execute_action drv d act = (reward, d1)" by (cases "execute_action drv d act")
  from Cons.prems(2) act ex obtain next_state where ns: "get_current_state drv d1 = Inr next_state"
    by (auto simp add: Let_def get_available_actions_nonempty split: sum.splits)
  let ?done = "str_contains ''error'' (lower (current_url drv d1))"
  let ?agent1 = "remember agent cur act reward next_state ?done"
  show ?case
  proof (cases ?done)
    case True
    with Cons.prems(2) act ex ns step have "reason = Done" "d' = d1"
      by (auto simp add: Let_def get_available_actions_nonempty is_episode_done_below_cap)
    with True show ?thesis by simp
  next
    case False
    with Cons.prems(2) act ex ns step have
      run: "exploration_phase forward drv rnd rest (d1, ?agent1, next_state, acc + reward) = Inr (reason, d', agent', cur', acc')"
      by (auto simp add: Let_def get_available_actions_nonempty is_episode_done_below_cap)
    from Cons.IH [OF rest run] have ih: "reason = Done \<longrightarrow> str_contains ''error'' (lower (current_url drv d'))"
      "reason \<noteq> Done \<longrightarrow> (\<forall>e\<in>set (memory agent'). e \<in> set (memory ?agent1) \<or> \<not> exp_done e)" by auto
    have "\<forall>e\<in>set (memory ?agent1). e \<in> set (memory agent) \<or> \<not> exp_done e"
      using remember_memory_set [of agent cur act reward next_state ?done] False
      by (auto simp add: exp_done_def)
    with ih show ?thesis by blast
  qed
qed


lemma trainer_loop_flags:
  assumes "trainer_loop md5 forward drv rnd todo (d, agent, rc, cur, n, k, acc) =
             Inr (reason, d', agent', st)"
  shows "reason = RangeExhausted \<and>
         (\<forall>e\<in>set (memory agent'). e \<in> set (memory agent) \<or> \<not> exp_done e)"
  using assms
proof (induction todo arbitrary: d agent rc cur n k acc)
  case Nil
  then show ?case by auto
next
  case (Cons step rest)
  let ?page = "get_page_state drv d"
  let ?avail = "get_available_actions ?page"
  from Cons.prems obtain act where act: "get_action forward (rnd step) agent cur ?avail = Inr act"
    by (auto simp add: Let_def get_available_actions_nonempty split: sum.splits)
  obtain success d1 where ex: "execute_action_safely drv d act = (success, d1)"
    by (cases "execute_action_safely drv d act")
  obtain r rc1 where rw: "calculate_exploration_reward md5 rc ?page (action_type act) success = (r, rc1)"
    by (cases "calculate_exploration_reward md5 rc ?page (action_type act) success")
  from Cons.prems act ex rw obtain next_state where ns: "get_current_state drv d1 = Inr next_state"
    by (auto simp add: Let_def get_available_actions_nonempty split: sum.splits)
  let ?agent1 = "remember agent cur act r next_state False"
  from Cons.prems act ex rw ns have
    run: "trainer_loop md5 forward drv rnd rest
            (sleep drv d1 (2 / 10), ?agent1, rc1, next_state, n + 1,
             (if success then k + 1 else k), acc + r) = Inr (reason, d', agent', st)"
    by (auto simp add: Let_def get_available_actions_nonempty)
  from Cons.IH [OF run] have ih: "reason = RangeExhausted"
    "\<forall>e\<in>set (memory agent'). e \<in> set (memory ?agent1) \<or> \<not> exp_done e" by auto
  have "\<forall>e\<in>set (memory ?agent1). e \<in> set (memory agent) \<or> \<not> exp_done e"
    using remember_memory_set [of agent cur act r next_state False]
    by (auto simp add: exp_done_def)
  with ih show ?case by blast
qed

text \<open>
  C10. Whatever the page, \<open>get_available_actions\<close> ends with the five navigation
  actions scroll\_up, scroll\_down, wait, navigate\_back and refresh, so it is never
  empty; and neither episode loop ever leaves through its \<open>break\<close> on an empty
  action list.
\<close>

theorem available_actions_never_empty:
  "get_available_actions ps \<noteq> [] \<and>
   5 \<le> length (get_available_actions ps) \<and>
   (\<exists>element_part. get_available_actions ps =
      element_part @
        [Action ''scroll_up'' None None, Action ''scroll_down'' None None,
         Action ''wait'' None None, Action ''navigate_back'' None None,
         Action ''refresh'' None None]) \<and>
   exploration_phase forward drv rnd todo (d, agent, cur, acc) \<noteq> Inr (NoActions, st) \<and>
   trainer_loop md5 forward drv rnd todo (d, agent, rc, cur, n, k, acc) \<noteq> Inr (NoActions, st')"
  using exploration_phase_never_no_actions [of forward drv rnd todo d agent cur acc st]
    trainer_loop_never_no_actions [of md5 forward drv rnd todo d agent rc cur n k acc st']
  by (simp add: get_available_actions_def)

text \<open>On the quiet browser every step clicks the button and no step is terminal.\<close>

lemma quiet_page_state:
  "get_page_state quiet_driver () =
     \<lparr>url = ''http://localhost:3000/#/'', title = ''OWASP Juice Shop'', elements = [login_button],
      user_context = Map.empty, page_type = ''general'', timestamp = 0\<rparr>"
  by (simp add: get_page_state_def quiet_driver_def extract_elements_def default_max_elements_def
      Let_def get_page_type_def lower_def lower_char_def login_button_def)

lemma quiet_actions:
  "get_available_actions (get_page_state quiet_driver ()) =
     [Action ''click'' (Some login_button) None, Action ''scroll_up'' None None,
      Action ''scroll_down'' None None, Action ''wait'' None None,
      Action ''navigate_back'' None None, Action ''refresh'' None None]"
  by (simp add: quiet_page_state get_available_actions_def) (simp add: login_button_def)

lemma quiet_state: "\<exists>v. get_current_state quiet_driver () = Inr v \<and> length v = 175"
  unfolding get_current_state_def
  by (rule state_to_vector_ok) (simp_all add: quiet_page_state default_max_elements_def)

lemma quiet_execute:
  "execute_action quiet_driver () (Action ''click'' (Some login_button) None) = (1, ())"
  by (simp add: execute_action_def Action_def quiet_driver_def)

lemma quiet_done: "is_episode_done quiet_driver () step = (50 \<le> step)"
  by (simp add: is_episode_done_def quiet_driver_def lower_def lower_char_def)

lemma quiet_get_action:
  "epsilon agent = 1 \<Longrightarrow>
   get_action forward half_draw agent cur (get_available_actions (get_page_state quiet_driver ()))
     = Inr (Action ''click'' (Some login_button) None)"
  unfolding quiet_actions
  by (simp add: get_action_def half_draw_def random_choice_def)

lemma list_all_deque_append:
  "list_all P xs \<Longrightarrow> P x \<Longrightarrow> list_all P (deque_append n xs x)"
  by (auto simp add: deque_append_def list_all_iff dest: in_set_dropD)

lemma quiet_phase:
  assumes "\<forall>s\<in>set todo. s < 50" "epsilon agent = 1" "memory_maxlen agent = 10000"
    "length (memory agent) + length todo \<le> 10000" "list_all (\<lambda>e. \<not> exp_done e) (memory agent)"
  shows "\<exists>agent' cur' acc'.
           exploration_phase forward quiet_driver (\<lambda>i. half_draw) todo ((), agent, cur, acc)
             = Inr (RangeExhausted, (), agent', cur', acc') \<and>
           length (memory agent') = length (memory agent) + length todo \<and>
           list_all (\<lambda>e. \<not> exp_done e) (memory agent')"
  using assms
proof (induction todo arbitrary: agent cur acc)
  case Nil
  then show ?case by simp
next
  case (Cons step rest)
  from quiet_state obtain v where v: "get_current_state quiet_driver () = Inr v" by blast
  let ?click = "Action ''click'' (Some login_button) None"
  let ?agent1 = "remember agent cur ?click 1 v False"
  from Cons.prems have step: "\<not> 50 \<le> step" by auto
  have unfold: "exploration_phase forward quiet_driver (\<lambda>i. half_draw) (step # rest) ((), agent, cur, acc)
      = exploration_phase forward quiet_driver (\<lambda>i. half_draw) rest ((), ?agent1, v, acc + 1)"
    using quiet_get_action [OF Cons.prems(2), of forward cur] v step
    by (simp add: Let_def get_available_actions_nonempty quiet_execute quiet_done)
  have a: "\<forall>s\<in>set rest. s < 50" using Cons.prems(1) by simp
  have b: "epsilon ?agent1 = 1" "memory_maxlen ?agent1 = 10000"
    using Cons.prems by (simp_all add: remember_def)
  have len: "length (memory ?agent1) = Suc (length (memory agent))"
    using Cons.prems(3,4) by (simp add: remember_def deque_append_def)
  have c: "length (memory ?agent1) + length rest \<le> 10000" using Cons.prems(4) len by simp
  have d: "list_all (\<lambda>e. \<not> exp_done e) (memory ?agent1)"
    using Cons.prems(5) by (simp add: remember_def list_all_deque_append exp_done_def)
  from Cons.IH [OF a b c d, of v "acc + 1"] len show ?case unfolding unfold by auto
qed

text \<open>
  C2. The claim has the step that reaches the cap of 50 recorded with
  \<open>done = true\<close>. In the code \<open>_is_episode_done\<close> tests \<open>step >= 50\<close> while \<open>step\<close>
  runs over \<open>range(50)\<close>, that is up to 49: on a browser whose URL never holds an
  error marker the episode runs its 50 steps, the range is exhausted, and all 50
  recorded experiences, the last one included, carry \<open>done = false\<close>.
\<close>

theorem train_episode_cap_step_not_terminal:
  "(case train_episode_exploration click_first quiet_driver (\<lambda>step. half_draw) fresh_agent () of
      Inl err \<Rightarrow> False
    | Inr (reason, d, agent, cur, acc) \<Rightarrow>
        reason = RangeExhausted \<and> length (memory agent) = 50 \<and>
        \<not> exp_done (last (memory agent)) \<and> list_all (\<lambda>e. \<not> exp_done e) (memory agent))"
proof -
  from quiet_state obtain v where v: "get_current_state quiet_driver () = Inr v" by blast
  have f: "epsilon fresh_agent = 1" "memory_maxlen fresh_agent = 10000" "memory fresh_agent = []"
    by (simp_all add: fresh_agent_def exploration_agent_init_def)
  have "\<forall>s\<in>set [0..<50]. s < 50" by simp
  from quiet_phase [OF this f(1) f(2), of click_first v 0] f(3)
  obtain agent' cur' acc' where
    run: "exploration_phase click_first quiet_driver (\<lambda>i. half_draw) [0..<50] ((), fresh_agent, v, 0)
            = Inr (RangeExhausted, (), agent', cur', acc')" and
    len: "length (memory agent') = 50" and
    flags: "list_all (\<lambda>e. \<not> exp_done e) (memory agent')"
    by auto
  from len have "memory agent' \<noteq> []" by auto
  with flags have "\<not> exp_done (last (memory agent'))" by (simp add: list_all_iff)
  with run len flags v show ?thesis
    by (simp add: train_episode_exploration_def quiet_driver_def)
qed

end
